theory Spec2Isabelle
  imports Complex_Main "HOL-Library.Multiset" "HOL-Library.AList"
begin

section \<open>Data model\<close>

text \<open>
  The two fetch scripts (\<^verbatim>\<open>fetch_eye_hospitals.py\<close>, the simple pipeline, and
  \<^verbatim>\<open>fetch_eye_hospitals_comprehensive.py\<close>, the grid and text strategies with their
  combiner) are embedded as state-passing functions. Python floats are modelled by real
  numbers, Python ints by \<open>int\<close>, a \<open>dict\<close> with insertion order by an association
  list, a \<open>DataFrame\<close> by the list of its rows. Printing and \<open>time.sleep\<close> have no
  effect on any value modelled here and are left out, together with the counters that
  only feed a print (\<open>zone_hospitals\<close>, \<open>keyword_results\<close>, \<open>zones_searched\<close>).
\<close>

text \<open>Exceptions the pipelines can meet; every one is a subclass of \<open>Exception\<close>.\<close>

datatype exn =
    ApiError string
  | TransportError
  | Timeout
  | KeyError string
  | TypeError

text \<open>
  One item of a search response. A key the code reads with \<open>[...]\<close> or \<open>.get\<close> may be
  absent; \<open>rp_lat\<close> is \<open>None\<close> when \<open>geometry\<close>, \<open>location\<close> or \<open>lat\<close> is absent.
\<close>

record raw_place =
  rp_place_id :: "string option"
  rp_lat :: "real option"
  rp_lng :: "real option"

record search_response =
  results :: "raw_place list"
  next_page_token :: "string option"

text \<open>The \<open>result\<close> object of a details response, every field possibly absent.\<close>

record place_data =
  pd_name :: "string option"
  pd_formatted_address :: "string option"
  pd_lat :: "real option"
  pd_lng :: "real option"
  pd_rating :: "real option"
  pd_user_ratings_total :: "int option"
  pd_website :: "string option"
  pd_formatted_phone_number :: "string option"
  pd_open_now :: "bool option"
  pd_types :: "string list option"

text \<open>
  A row of the output table (the \<open>hospital_info\<close> dict). The columns that only one
  pipeline writes are optional, as they are after \<open>pd.concat\<close>.
\<close>

record hospital =
  name :: string
  address :: string
  latitude :: "real option"
  longitude :: "real option"
  rating :: "real option"
  review_count :: int
  phone :: string
  website :: string
  place_id :: string
  types :: "string list option"
  zone :: "nat option"
  keyword_found :: "string option"
  search_method :: "string option"
  open_now :: "bool option"

text \<open>
  The external provider. Each client method may raise or return; its answer may depend
  on the request and on every call issued before it (the log), which covers any
  deterministic provider, also one whose data changes during a run.
\<close>

datatype api_call =
    NearbyCall "real \<times> real" int string "string option"
  | TextCall string "string option"
  | PlaceCall string

record gmaps =
  places_nearby ::
    "api_call list \<Rightarrow> real \<times> real \<Rightarrow> int \<Rightarrow> string \<Rightarrow> string option \<Rightarrow> exn + search_response"
  places_text :: "api_call list \<Rightarrow> string \<Rightarrow> string option \<Rightarrow> exn + search_response"
  place :: "api_call list \<Rightarrow> string \<Rightarrow> exn + place_data option"

text \<open>The mutable variables of the grid and text strategies, and the call log.\<close>

record run_state =
  all_hospitals :: "(string \<times> hospital) list"
  total_requests :: nat
  calls :: "api_call list"

text \<open>The mutable variables of the simple pipeline: a plain list, no keyed store.\<close>

record simple_state =
  hospitals :: "hospital list"
  request_count :: nat
  simple_calls :: "api_call list"

section \<open>Constants of the scripts\<close>

definition BANGALORE_CENTER :: "real \<times> real" where
  "BANGALORE_CENTER = (12.9716, 77.5946)"

definition SEARCH_RADIUS :: int where
  "SEARCH_RADIUS = 30000"

definition GRID_POINTS :: "(real \<times> real) list" where
  "GRID_POINTS =
    [(12.9716, 77.5946),
     (13.0500, 77.5946), (13.1200, 77.5946),
     (12.8900, 77.5946), (12.8100, 77.5946),
     (12.9716, 77.7000), (12.9716, 77.8000),
     (12.9716, 77.4800), (12.9716, 77.3800),
     (13.0500, 77.7000),
     (13.0500, 77.4800),
     (12.8900, 77.7000),
     (12.8900, 77.4800)]"

definition KEYWORDS :: "string list" where
  "KEYWORDS =
    [''eye hospital'', ''ophthalmology hospital'', ''eye clinic'', ''eye care center'',
     ''eye institute'', ''cornea hospital'', ''retina hospital'', ''cataract hospital'']"

definition sample_row ::
  "string \<Rightarrow> string \<Rightarrow> real \<Rightarrow> real \<Rightarrow> real \<Rightarrow> int \<Rightarrow> string \<Rightarrow> string \<Rightarrow> string \<Rightarrow> hospital" where
  "sample_row n a la lo r c p w i =
     \<lparr>name = n, address = a, latitude = Some la, longitude = Some lo, rating = Some r,
      review_count = c, phone = p, website = w, place_id = i, types = None, zone = None,
      keyword_found = None, search_method = None, open_now = Some True\<rparr>"

definition SAMPLE_EYE_HOSPITALS :: "hospital list" where
  "SAMPLE_EYE_HOSPITALS =
    [sample_row ''L V Prasad Eye Institute''
       ''L V Prasad Marg, Whitefield, Bangalore 560066''
       13.0259 77.7362 4.6 1850 ''+91 80 4055 2020'' ''https://www.lvpei.org'' ''sample_1'',
     sample_row ''Narayana Nethralaya''
       ''#121, Chord Road, Opp. St. Johns School, High Grounds, Bangalore 560001''
       13.0065 77.5956 4.5 2150 ''+91 80 4055 2000'' ''https://www.narayananethralaya.org''
       ''sample_2'',
     sample_row ''Aditya Birla Aravind Eye Hospital''
       ''No. 61, Koramangala 5th A Cross Road, Bangalore 560034''
       12.9352 77.6245 4.7 1620 ''+91 80 4040 2020'' ''https://www.adarsh.in'' ''sample_3'',
     sample_row ''Shroff Eye Centre''
       ''2nd Floor, 80 Feet Road, Indiranagar, Bangalore 560038''
       12.9716 77.6422 4.4 890 ''+91 80 4123 4567'' ''https://www.shroffeyecentre.com''
       ''sample_4'',
     sample_row ''Center for Sight''
       ''80 Feet Road, Koramangala, Bangalore 560034''
       12.9352 77.6178 4.6 1340 ''+91 80 6789 0123'' ''https://www.centreforsight.net''
       ''sample_5'',
     sample_row ''Apollo Spectra Eye Clinic''
       ''Bangalore Medical College Campus, Fort, Bangalore 560002''
       13.0036 77.5915 4.5 1120 ''+91 80 4088 8888'' ''https://www.apollospectra.com''
       ''sample_6'',
     sample_row ''Nandan Eye Care Centre''
       ''80 Feet Road, Opp. Innovative Multiplex, Koramangala, Bangalore 560034''
       12.9320 77.6200 4.3 750 ''+91 80 4123 5678'' ''https://www.nandaneyecare.com''
       ''sample_7'',
     sample_row ''Aster RV Eye Care''
       ''Aster RV Hospital, Marathahalli, Bangalore 560037''
       12.9700 77.7180 4.6 1200 ''+91 80 4089 0089'' ''https://www.asterrv.com'' ''sample_8'',
     sample_row ''BGS Gleneagles Global Hospitals Eye Clinic''
       ''Kengeri, Bangalore 560060''
       13.0200 77.5500 4.4 980 ''+91 80 6789 1234'' ''https://www.bgshospitals.com''
       ''sample_9'',
     sample_row ''Fortis Eye Institute''
       ''Whitefield, Bangalore 560066''
       13.0259 77.7450 4.5 1050 ''+91 80 4040 4040'' ''https://www.fortiseye.com''
       ''sample_10'']"

section \<open>Library operations the scripts call\<close>

text \<open>\<open>d.get(key, default)\<close> on a key that may be absent.\<close>

definition dict_get :: "'a option \<Rightarrow> 'a \<Rightarrow> 'a" where
  "dict_get v dflt = (case v of None \<Rightarrow> dflt | Some x \<Rightarrow> x)"

text \<open>\<open>not next_page_token\<close>: true for an absent token and for the empty string.\<close>

definition falsy :: "string option \<Rightarrow> bool" where
  "falsy t = (case t of None \<Rightarrow> True | Some s \<Rightarrow> s = [])"

text \<open>
  \<open>math.radians\<close> and \<open>math.atan2\<close> on real numbers, the latter by its quadrants.
\<close>

definition radians :: "real \<Rightarrow> real" where
  "radians d = d * pi / 180"

definition atan2 :: "real \<Rightarrow> real \<Rightarrow> real" where
  "atan2 y x =
     (if 0 < x then arctan (y / x)
      else if x < 0 \<and> 0 \<le> y then arctan (y / x) + pi
      else if x < 0 \<and> y < 0 then arctan (y / x) - pi
      else if 0 < y then pi / 2
      else if y < 0 then - (pi / 2)
      else 0)"

text \<open>
  \<open>df.drop_duplicates(subset=['place_id'], keep='first')\<close>: the rows in order, each
  identifier kept at its first row only.
\<close>

fun drop_dups_seen :: "string list \<Rightarrow> hospital list \<Rightarrow> hospital list" where
  "drop_dups_seen seen [] = []"
| "drop_dups_seen seen (h # hs) =
     (if place_id h \<in> set seen then drop_dups_seen seen hs
      else h # drop_dups_seen (place_id h # seen) hs)"

definition drop_duplicates :: "hospital list \<Rightarrow> hospital list" where
  "drop_duplicates df = drop_dups_seen [] df"

text \<open>
  \<open>df.sort_values('review_count', ascending=False)\<close> is called with the library's
  default sorting kind (\<open>quicksort\<close>), which the library documents as not stable. The
  scripts therefore take the sorting routine as the parameter \<open>sort_values\<close>, and all
  that is known of it is what the library promises for every kind: the rows come back
  as a permutation, in non-increasing order of \<open>review_count\<close>.
\<close>

definition sorted_desc :: "hospital list \<Rightarrow> bool" where
  "sorted_desc df = sorted_wrt (\<lambda>a b. review_count b \<le> review_count a) df"

definition sorts_desc :: "(hospital list \<Rightarrow> hospital list) \<Rightarrow> bool" where
  "sorts_desc sort_values \<longleftrightarrow> (\<forall>df. mset (sort_values df) = mset df \<and> sorted_desc (sort_values df))"

text \<open>Two routines that keep this promise: one stable, one that reverses ties.\<close>

definition stable_sort_values :: "hospital list \<Rightarrow> hospital list" where
  "stable_sort_values df = sort_key (\<lambda>h. - review_count h) df"


section \<open>The comprehensive script\<close>

subsection \<open>\<open>haversine_distance\<close>\<close>

definition haversine_distance :: "real \<Rightarrow> real \<Rightarrow> real \<Rightarrow> real \<Rightarrow> real" where
  "haversine_distance lat1 lon1 lat2 lon2 =
     (let R = 6371;
          dlat = radians lat2 - radians lat1;
          dlon = radians lon2 - radians lon1;
          a = (sin (dlat / 2))\<^sup>2 + cos (radians lat1) * cos (radians lat2) * (sin (dlon / 2))\<^sup>2;
          c = 2 * atan2 (sqrt a) (sqrt (1 - a))
      in R * c)"

subsection \<open>\<open>fetch_hospitals_grid_search\<close>\<close>

text \<open>
  The \<open>hospital_info\<close> literal of the grid strategy. Its coordinates are read with
  \<open>[...]\<close>, so an absent \<open>geometry\<close>, \<open>location\<close>, \<open>lat\<close> or \<open>lng\<close> raises.
\<close>

definition grid_hospital_info ::
  "place_data \<Rightarrow> int \<Rightarrow> string \<Rightarrow> nat \<Rightarrow> string \<Rightarrow> exn + hospital" where
  "grid_hospital_info pd rc pid zone_idx keyword =
     (case pd_lat pd of
        None \<Rightarrow> Inl (KeyError ''geometry'')
      | Some la \<Rightarrow>
          (case pd_lng pd of
             None \<Rightarrow> Inl (KeyError ''geometry'')
           | Some lo \<Rightarrow>
               Inr \<lparr>name = dict_get (pd_name pd) ''N/A'',
                    address = dict_get (pd_formatted_address pd) ''N/A'',
                    latitude = Some la,
                    longitude = Some lo,
                    rating = pd_rating pd,
                    review_count = rc,
                    phone = dict_get (pd_formatted_phone_number pd) ''N/A'',
                    website = dict_get (pd_website pd) ''N/A'',
                    place_id = pid,
                    types = Some (dict_get (pd_types pd) []),
                    zone = Some zone_idx,
                    keyword_found = Some keyword,
                    search_method = None,
                    open_now = None\<rparr>))"

text \<open>
  The body of the inner \<open>try\<close> for one item of a page: the exception it raises, if any,
  and the state at that moment (a dict keeps what was written before a raise).
\<close>

definition grid_try_place ::
  "gmaps \<Rightarrow> int \<Rightarrow> nat \<Rightarrow> string \<Rightarrow> raw_place \<Rightarrow> run_state \<Rightarrow> exn option \<times> run_state" where
  "grid_try_place g min_reviews zone_idx keyword p st =
     (case rp_place_id p of
        None \<Rightarrow> (Some (KeyError ''place_id''), st)
      | Some pid \<Rightarrow>
          if pid \<in> fst ` set (all_hospitals st) then (None, st)
          else
            (case place g (calls st) pid of
               Inl e \<Rightarrow> (Some e, st\<lparr>calls := calls st @ [PlaceCall pid]\<rparr>)
             | Inr details \<Rightarrow>
                 (let st1 = st\<lparr>calls := calls st @ [PlaceCall pid],
                               total_requests := total_requests st + 1\<rparr>
                  in case details of
                       None \<Rightarrow> (Some (KeyError ''result''), st1)
                     | Some pd \<Rightarrow>
                         (let rc = dict_get (pd_user_ratings_total pd) 0
                          in if min_reviews \<le> rc then
                               (case grid_hospital_info pd rc pid zone_idx keyword of
                                  Inl e \<Rightarrow> (Some e, st1)
                                | Inr info \<Rightarrow>
                                    (None, st1\<lparr>all_hospitals :=
                                              AList.update pid info (all_hospitals st1)\<rparr>))
                             else (None, st1)))))"

text \<open>\<open>except Exception: continue\<close>: the item is dropped, the state kept.\<close>

definition grid_process_place ::
  "gmaps \<Rightarrow> int \<Rightarrow> nat \<Rightarrow> string \<Rightarrow> raw_place \<Rightarrow> run_state \<Rightarrow> run_state" where
  "grid_process_place g min_reviews zone_idx keyword p st =
     snd (grid_try_place g min_reviews zone_idx keyword p st)"

text \<open>
  The \<open>while True\<close> loop of one (zone, keyword) query, entered with the token and the
  page number of the previous round. It stops on an empty page, on a falsy token and
  at page 3.
\<close>

function grid_pages ::
  "gmaps \<Rightarrow> int \<Rightarrow> int \<Rightarrow> nat \<Rightarrow> real \<times> real \<Rightarrow> string \<Rightarrow> string option \<Rightarrow> nat \<Rightarrow> run_state
   \<Rightarrow> exn option \<times> run_state" where
  "grid_pages g min_reviews search_radius zone_idx loc keyword tok page_num st =
     (case places_nearby g (calls st) loc search_radius keyword tok of
        Inl e \<Rightarrow>
          (Some e, st\<lparr>calls := calls st @ [NearbyCall loc search_radius keyword tok]\<rparr>)
      | Inr places_result \<Rightarrow>
          if results places_result = [] then
            (None, st\<lparr>calls := calls st @ [NearbyCall loc search_radius keyword tok],
                      total_requests := total_requests st + 1\<rparr>)
          else if falsy (next_page_token places_result) \<or> 3 \<le> Suc page_num then
            (None,
             fold (grid_process_place g min_reviews zone_idx keyword) (results places_result)
               (st\<lparr>calls := calls st @ [NearbyCall loc search_radius keyword tok],
                   total_requests := total_requests st + 1\<rparr>))
          else
            grid_pages g min_reviews search_radius zone_idx loc keyword
              (next_page_token places_result) (Suc page_num)
              (fold (grid_process_place g min_reviews zone_idx keyword) (results places_result)
                 (st\<lparr>calls := calls st @ [NearbyCall loc search_radius keyword tok],
                     total_requests := total_requests st + 1\<rparr>)))"
  by pat_completeness auto
termination
  by (relation "measure (\<lambda>(g, m, r, z, loc, k, tok, page_num, st). 3 - page_num)") auto

declare grid_pages.simps [simp del]

text \<open>The outer \<open>try\<close> of one keyword: \<open>except Exception: continue\<close>.\<close>

definition grid_keyword ::
  "gmaps \<Rightarrow> int \<Rightarrow> int \<Rightarrow> nat \<Rightarrow> real \<times> real \<Rightarrow> string \<Rightarrow> run_state \<Rightarrow> run_state" where
  "grid_keyword g min_reviews search_radius zone_idx loc keyword st =
     snd (grid_pages g min_reviews search_radius zone_idx loc keyword None 0 st)"

definition grid_zone ::
  "gmaps \<Rightarrow> int \<Rightarrow> int \<Rightarrow> string list \<Rightarrow> nat \<times> real \<times> real \<Rightarrow> run_state \<Rightarrow> run_state" where
  "grid_zone g min_reviews search_radius keywords zl st =
     fold (grid_keyword g min_reviews search_radius (fst zl) (snd zl)) keywords st"

text \<open>The two nested \<open>for\<close> loops over the zones and the keywords given.\<close>

definition grid_loops ::
  "gmaps \<Rightarrow> int \<Rightarrow> int \<Rightarrow> (real \<times> real) list \<Rightarrow> string list \<Rightarrow> run_state \<Rightarrow> run_state" where
  "grid_loops g min_reviews search_radius points keywords st =
     fold (grid_zone g min_reviews search_radius keywords) (enumerate 1 points) st"

text \<open>
  The function returns the table; the model returns the call log beside it, for the
  caller that runs the text strategy next.
\<close>

definition fetch_hospitals_grid_search ::
  "gmaps \<Rightarrow> (hospital list \<Rightarrow> hospital list) \<Rightarrow> int \<Rightarrow> int \<Rightarrow> api_call list
   \<Rightarrow> hospital list \<times> api_call list" where
  "fetch_hospitals_grid_search g sort_values min_reviews search_radius calls0 =
     (let st = grid_loops g min_reviews search_radius GRID_POINTS KEYWORDS
                 \<lparr>all_hospitals = [], total_requests = 0, calls = calls0\<rparr>
      in (if all_hospitals st \<noteq> [] then sort_values (map snd (all_hospitals st)) else [],
          calls st))"

subsection \<open>\<open>fetch_hospitals_text_search\<close>\<close>

definition text_hospital_info :: "place_data \<Rightarrow> int \<Rightarrow> string \<Rightarrow> exn + hospital" where
  "text_hospital_info pd rc pid =
     (case pd_lat pd of
        None \<Rightarrow> Inl (KeyError ''geometry'')
      | Some la \<Rightarrow>
          (case pd_lng pd of
             None \<Rightarrow> Inl (KeyError ''geometry'')
           | Some lo \<Rightarrow>
               Inr \<lparr>name = dict_get (pd_name pd) ''N/A'',
                    address = dict_get (pd_formatted_address pd) ''N/A'',
                    latitude = Some la,
                    longitude = Some lo,
                    rating = pd_rating pd,
                    review_count = rc,
                    phone = dict_get (pd_formatted_phone_number pd) ''N/A'',
                    website = dict_get (pd_website pd) ''N/A'',
                    place_id = pid,
                    types = None,
                    zone = None,
                    keyword_found = None,
                    search_method = Some ''text_search'',
                    open_now = None\<rparr>))"

text \<open>
  The body of the inner \<open>try\<close> of the text strategy. The coordinates of the search
  item are read with \<open>.get\<close>; \<open>haversine_distance\<close> raises a \<open>TypeError\<close> on \<open>None\<close>.
  The distance test comes first, before the identifier is read.
\<close>

definition text_try_place ::
  "gmaps \<Rightarrow> int \<Rightarrow> raw_place \<Rightarrow> run_state \<Rightarrow> exn option \<times> run_state" where
  "text_try_place g min_reviews p st =
     (case rp_lat p of
        None \<Rightarrow> (Some TypeError, st)
      | Some lat \<Rightarrow>
          (case rp_lng p of
             None \<Rightarrow> (Some TypeError, st)
           | Some lon \<Rightarrow>
               if 50 < haversine_distance (fst BANGALORE_CENTER) (snd BANGALORE_CENTER) lat lon
               then (None, st)
               else
                 (case rp_place_id p of
                    None \<Rightarrow> (Some (KeyError ''place_id''), st)
                  | Some pid \<Rightarrow>
                      if pid \<in> fst ` set (all_hospitals st) then (None, st)
                      else
                        (case place g (calls st) pid of
                           Inl e \<Rightarrow> (Some e, st\<lparr>calls := calls st @ [PlaceCall pid]\<rparr>)
                         | Inr details \<Rightarrow>
                             (let st1 = st\<lparr>calls := calls st @ [PlaceCall pid],
                                           total_requests := total_requests st + 1\<rparr>
                              in case details of
                                   None \<Rightarrow> (Some (KeyError ''result''), st1)
                                 | Some pd \<Rightarrow>
                                     (let rc = dict_get (pd_user_ratings_total pd) 0
                                      in if min_reviews \<le> rc then
                                           (case text_hospital_info pd rc pid of
                                              Inl e \<Rightarrow> (Some e, st1)
                                            | Inr info \<Rightarrow>
                                                (None, st1\<lparr>all_hospitals :=
                                                   AList.update pid info (all_hospitals st1)\<rparr>))
                                         else (None, st1)))))))"

definition text_process_place :: "gmaps \<Rightarrow> int \<Rightarrow> raw_place \<Rightarrow> run_state \<Rightarrow> run_state" where
  "text_process_place g min_reviews p st = snd (text_try_place g min_reviews p st)"

text \<open>The \<open>while True\<close> loop of one keyword; it stops at page 2.\<close>

function text_pages ::
  "gmaps \<Rightarrow> int \<Rightarrow> string \<Rightarrow> string option \<Rightarrow> nat \<Rightarrow> run_state \<Rightarrow> exn option \<times> run_state" where
  "text_pages g min_reviews keyword tok page_num st =
     (case places_text g (calls st) (keyword @ '' Bangalore'') tok of
        Inl e \<Rightarrow> (Some e, st\<lparr>calls := calls st @ [TextCall (keyword @ '' Bangalore'') tok]\<rparr>)
      | Inr search_result \<Rightarrow>
          if results search_result = [] then
            (None, st\<lparr>calls := calls st @ [TextCall (keyword @ '' Bangalore'') tok],
                      total_requests := total_requests st + 1\<rparr>)
          else if falsy (next_page_token search_result) \<or> 2 \<le> Suc page_num then
            (None,
             fold (text_process_place g min_reviews) (results search_result)
               (st\<lparr>calls := calls st @ [TextCall (keyword @ '' Bangalore'') tok],
                   total_requests := total_requests st + 1\<rparr>))
          else
            text_pages g min_reviews keyword (next_page_token search_result) (Suc page_num)
              (fold (text_process_place g min_reviews) (results search_result)
                 (st\<lparr>calls := calls st @ [TextCall (keyword @ '' Bangalore'') tok],
                     total_requests := total_requests st + 1\<rparr>)))"
  by pat_completeness auto
termination
  by (relation "measure (\<lambda>(g, m, k, tok, page_num, st). 2 - page_num)") auto

declare text_pages.simps [simp del]

definition text_keyword :: "gmaps \<Rightarrow> int \<Rightarrow> string \<Rightarrow> run_state \<Rightarrow> run_state" where
  "text_keyword g min_reviews keyword st = snd (text_pages g min_reviews keyword None 0 st)"

definition text_loops :: "gmaps \<Rightarrow> int \<Rightarrow> string list \<Rightarrow> run_state \<Rightarrow> run_state" where
  "text_loops g min_reviews keywords st = fold (text_keyword g min_reviews) keywords st"

definition fetch_hospitals_text_search ::
  "gmaps \<Rightarrow> (hospital list \<Rightarrow> hospital list) \<Rightarrow> int \<Rightarrow> api_call list
   \<Rightarrow> hospital list \<times> api_call list" where
  "fetch_hospitals_text_search g sort_values min_reviews calls0 =
     (let st = text_loops g min_reviews KEYWORDS
                 \<lparr>all_hospitals = [], total_requests = 0, calls = calls0\<rparr>
      in (if all_hospitals st \<noteq> [] then sort_values (map snd (all_hospitals st)) else [],
          calls st))"

subsection \<open>\<open>combine_results\<close>, \<open>save_hospitals_to_csv\<close> and the script body\<close>

definition combine_results ::
  "(hospital list \<Rightarrow> hospital list) \<Rightarrow> hospital list \<Rightarrow> hospital list \<Rightarrow> hospital list" where
  "combine_results sort_values grid_df text_df =
     (if grid_df = [] \<and> text_df = [] then []
      else if grid_df = [] then text_df
      else if text_df = [] then grid_df
      else sort_values (drop_duplicates (grid_df @ text_df)))"

text \<open>The rows written to the file, or \<open>None\<close> when no file is written.\<close>

definition save_hospitals_to_csv :: "hospital list \<Rightarrow> hospital list option" where
  "save_hospitals_to_csv df = (if df \<noteq> [] then Some df else None)"

record outcome =
  final_df :: "hospital list"
  csv_file :: "hospital list option"
  method_used :: string
  calls_made :: "api_call list"

text \<open>
  The \<open>__main__\<close> block of the comprehensive script, from the two command-line flags.
\<close>

definition comprehensive_main ::
  "gmaps \<Rightarrow> (hospital list \<Rightarrow> hospital list) \<Rightarrow> bool \<Rightarrow> bool \<Rightarrow> api_call list \<Rightarrow> outcome" where
  "comprehensive_main g sort_values use_grid_only use_text_only calls0 =
     (let (all_results1, calls1) =
            (if \<not> use_text_only then
               (let (grid_hospitals, c) = fetch_hospitals_grid_search g sort_values 100 15000 calls0
                in ([grid_hospitals], c))
             else ([], calls0));
          (all_results, calls2) =
            (if \<not> use_grid_only then
               (let (text_hospitals, c) = fetch_hospitals_text_search g sort_values 100 calls1
                in (all_results1 @ [text_hospitals], c))
             else (all_results1, calls1));
          (df, meth) =
            (case all_results of
               [a, b] \<Rightarrow> (combine_results sort_values a b, ''Grid + Text Search'')
             | [a] \<Rightarrow> (a, if \<not> use_text_only then ''Grid Search'' else ''Text Search'')
             | _ \<Rightarrow> ([], ''None''))
      in \<lparr>final_df = df,
          csv_file = (if df \<noteq> [] then save_hospitals_to_csv df else None),
          method_used = meth,
          calls_made = calls2\<rparr>)"

section \<open>The simple script\<close>

text \<open>
  The \<open>hospital_info\<close> literal of the simple pipeline: every field is read with
  \<open>.get\<close>, the coordinates too.
\<close>

definition simple_hospital_info :: "place_data \<Rightarrow> int \<Rightarrow> string \<Rightarrow> hospital" where
  "simple_hospital_info pd rc pid =
     \<lparr>name = dict_get (pd_name pd) ''N/A'',
      address = dict_get (pd_formatted_address pd) ''N/A'',
      latitude = pd_lat pd,
      longitude = pd_lng pd,
      rating = pd_rating pd,
      review_count = rc,
      phone = dict_get (pd_formatted_phone_number pd) ''N/A'',
      website = dict_get (pd_website pd) ''N/A'',
      place_id = pid,
      types = None,
      zone = None,
      keyword_found = None,
      search_method = None,
      open_now = pd_open_now pd\<rparr>"

definition simple_try_place ::
  "gmaps \<Rightarrow> int \<Rightarrow> raw_place \<Rightarrow> simple_state \<Rightarrow> exn option \<times> simple_state" where
  "simple_try_place g min_reviews p st =
     (case rp_place_id p of
        None \<Rightarrow> (Some (KeyError ''place_id''), st)
      | Some pid \<Rightarrow>
          (case place g (simple_calls st) pid of
             Inl e \<Rightarrow> (Some e, st\<lparr>simple_calls := simple_calls st @ [PlaceCall pid]\<rparr>)
           | Inr details \<Rightarrow>
               (let st1 = st\<lparr>simple_calls := simple_calls st @ [PlaceCall pid],
                             request_count := request_count st + 1\<rparr>
                in case details of
                     None \<Rightarrow> (Some (KeyError ''result''), st1)
                   | Some pd \<Rightarrow>
                       (let rc = dict_get (pd_user_ratings_total pd) 0
                        in if min_reviews \<le> rc then
                             (None, st1\<lparr>hospitals :=
                                        hospitals st1 @ [simple_hospital_info pd rc pid]\<rparr>)
                           else (None, st1)))))"

definition simple_process_place ::
  "gmaps \<Rightarrow> int \<Rightarrow> raw_place \<Rightarrow> simple_state \<Rightarrow> simple_state" where
  "simple_process_place g min_reviews p st = snd (simple_try_place g min_reviews p st)"

text \<open>
  The \<open>while True\<close> loop of the simple pipeline. It has no page limit: it ends only
  on a falsy token or on an exception of the search call, so the model is partial and
  \<open>None\<close> stands for a run that never leaves the loop.
\<close>

partial_function (option) simple_pages ::
  "gmaps \<Rightarrow> int \<Rightarrow> string option \<Rightarrow> simple_state \<Rightarrow> (exn option \<times> simple_state) option" where
  "simple_pages g min_reviews tok st =
     (case places_nearby g (simple_calls st) BANGALORE_CENTER SEARCH_RADIUS ''eye hospital'' tok of
        Inl e \<Rightarrow>
          Some (Some e,
                st\<lparr>simple_calls := simple_calls st @
                     [NearbyCall BANGALORE_CENTER SEARCH_RADIUS ''eye hospital'' tok]\<rparr>)
      | Inr places_result \<Rightarrow>
          if falsy (next_page_token places_result) then
            Some (None,
                  fold (simple_process_place g min_reviews) (results places_result)
                    (st\<lparr>simple_calls := simple_calls st @
                          [NearbyCall BANGALORE_CENTER SEARCH_RADIUS ''eye hospital'' tok],
                        request_count := request_count st + 1\<rparr>))
          else
            simple_pages g min_reviews (next_page_token places_result)
              (fold (simple_process_place g min_reviews) (results places_result)
                 (st\<lparr>simple_calls := simple_calls st @
                       [NearbyCall BANGALORE_CENTER SEARCH_RADIUS ''eye hospital'' tok],
                     request_count := request_count st + 1\<rparr>)))"

text \<open>
  \<open>fetch_eye_hospitals_from_api\<close>: the table, or Python's \<open>None\<close> when the loop raised
  or nothing was collected.
\<close>

definition fetch_eye_hospitals_from_api ::
  "gmaps \<Rightarrow> (hospital list \<Rightarrow> hospital list) \<Rightarrow> int \<Rightarrow> api_call list
   \<Rightarrow> (hospital list option \<times> api_call list) option" where
  "fetch_eye_hospitals_from_api g sort_values min_reviews calls0 =
     (case simple_pages g min_reviews None
             \<lparr>hospitals = [], request_count = 0, simple_calls = calls0\<rparr> of
        None \<Rightarrow> None
      | Some (Some e, st) \<Rightarrow> Some (None, simple_calls st)
      | Some (None, st) \<Rightarrow>
          Some (if hospitals st \<noteq> [] then Some (sort_values (hospitals st)) else None,
                simple_calls st))"

definition sample_data :: "(hospital list \<Rightarrow> hospital list) \<Rightarrow> int \<Rightarrow> hospital list" where
  "sample_data sort_values min_reviews =
     sort_values (filter (\<lambda>h. min_reviews \<le> review_count h) SAMPLE_EYE_HOSPITALS)"

definition get_eye_hospitals ::
  "gmaps \<Rightarrow> (hospital list \<Rightarrow> hospital list) \<Rightarrow> int \<Rightarrow> bool \<Rightarrow> api_call list
   \<Rightarrow> (hospital list \<times> api_call list) option" where
  "get_eye_hospitals g sort_values min_reviews use_sample calls0 =
     (if use_sample then Some (sample_data sort_values min_reviews, calls0)
      else
        (case fetch_eye_hospitals_from_api g sort_values min_reviews calls0 of
           None \<Rightarrow> None
         | Some (df, c) \<Rightarrow>
             (case df of
                None \<Rightarrow> Some (sample_data sort_values min_reviews, c)
              | Some rows \<Rightarrow>
                  if 0 < length rows then Some (rows, c)
                  else Some (sample_data sort_values min_reviews, c))))"

text \<open>
  The \<open>__main__\<close> block of the simple script: the table it shows and the rows it
  writes to the file, if any.
\<close>

definition simple_main ::
  "gmaps \<Rightarrow> (hospital list \<Rightarrow> hospital list) \<Rightarrow> bool \<Rightarrow> api_call list
   \<Rightarrow> (hospital list \<times> hospital list option) option" where
  "simple_main g sort_values use_sample calls0 =
     (case get_eye_hospitals g sort_values 100 use_sample calls0 of
        None \<Rightarrow> None
      | Some (hospitals_df, c) \<Rightarrow>
          Some (hospitals_df,
                if hospitals_df \<noteq> [] then save_hospitals_to_csv hospitals_df else None))"

section \<open>Notions used in the statements\<close>

text \<open>
  A keyed store is well formed for a threshold when no identifier occurs twice, every
  record sits under its own identifier, meets the threshold and has both coordinates.
\<close>

definition well_formed :: "int \<Rightarrow> (string \<times> hospital) list \<Rightarrow> bool" where
  "well_formed min_reviews al \<longleftrightarrow>
     distinct (map fst al) \<and>
     (\<forall>kh \<in> set al. place_id (snd kh) = fst kh \<and> min_reviews \<le> review_count (snd kh)
        \<and> latitude (snd kh) \<noteq> None \<and> longitude (snd kh) \<noteq> None)"

text \<open>
  A later store extends an earlier one when it is the earlier one, entry for entry,
  followed by well-formed entries under new identifiers.
\<close>

definition extends :: "int \<Rightarrow> (string \<times> hospital) list \<Rightarrow> (string \<times> hospital) list \<Rightarrow> bool" where
  "extends min_reviews al al' \<longleftrightarrow>
     (\<exists>new. al' = al @ new \<and> well_formed min_reviews new \<and> fst ` set new \<inter> fst ` set al = {})"

section \<open>Concrete inputs\<close>

text \<open>A row with a given identifier and review count, the other columns fixed.\<close>

definition test_row :: "string \<Rightarrow> int \<Rightarrow> hospital" where
  "test_row pid rc =
     \<lparr>name = ''N/A'', address = ''N/A'', latitude = Some 12.9716, longitude = Some 77.5946,
      rating = None, review_count = rc, phone = ''N/A'', website = ''N/A'', place_id = pid,
      types = None, zone = None, keyword_found = None, search_method = None, open_now = None\<rparr>"

text \<open>A search item and a details answer located at the city centre.\<close>

definition item :: "string \<Rightarrow> raw_place" where
  "item pid = \<lparr>rp_place_id = Some pid, rp_lat = Some 12.9716, rp_lng = Some 77.5946\<rparr>"

definition details_with :: "int \<Rightarrow> place_data" where
  "details_with rc =
     \<lparr>pd_name = Some ''Eye Care'', pd_formatted_address = None, pd_lat = Some 12.9716,
      pd_lng = Some 77.5946, pd_rating = None, pd_user_ratings_total = Some rc,
      pd_website = None, pd_formatted_phone_number = None, pd_open_now = None,
      pd_types = None\<rparr>"

text \<open>
  A provider whose one nearby page lists the place \<open>A\<close> twice and whose details answer
  for a place changes after the first request for it (500 reviews, then 600).
\<close>

definition repeating_api :: gmaps where
  "repeating_api =
     \<lparr>places_nearby = (\<lambda>h loc r k t. Inr \<lparr>results = [item ''A'', item ''A''], next_page_token = None\<rparr>),
      places_text = (\<lambda>h q t. Inl Timeout),
      place = (\<lambda>h pid. Inr (Some (details_with (if PlaceCall pid \<in> set h then 600 else 500))))\<rparr>"








text \<open>The search requests of a call log, in order: the page requests.\<close>

definition is_search_call :: "api_call \<Rightarrow> bool" where
  "is_search_call c = (case c of PlaceCall pid \<Rightarrow> False | _ \<Rightarrow> True)"

definition page_requests :: "api_call list \<Rightarrow> api_call list" where
  "page_requests cs = filter is_search_call cs"

text \<open>
  A provider whose searches have three pages: the first two responses carry a token,
  the third does not. Every place has 500 reviews.
\<close>

definition three_pages :: "string option \<Rightarrow> search_response" where
  "three_pages tok =
     (if tok = None then \<lparr>results = [item ''P1''], next_page_token = Some ''t1''\<rparr>
      else if tok = Some ''t1'' then \<lparr>results = [item ''P2''], next_page_token = Some ''t2''\<rparr>
      else \<lparr>results = [item ''P3''], next_page_token = None\<rparr>)"

definition paging_api :: gmaps where
  "paging_api =
     \<lparr>places_nearby = (\<lambda>h loc r k t. Inr (three_pages t)),
      places_text = (\<lambda>h q t. Inr (three_pages t)),
      place = (\<lambda>h pid. Inr (Some (details_with 500)))\<rparr>"

text \<open>A provider whose every search response is empty and carries a token.\<close>

definition endless_api :: gmaps where
  "endless_api =
     \<lparr>places_nearby = (\<lambda>h loc r k t. Inr \<lparr>results = [], next_page_token = Some ''t''\<rparr>),
      places_text = (\<lambda>h q t. Inr \<lparr>results = [], next_page_token = Some ''t''\<rparr>),
      place = (\<lambda>h pid. Inl Timeout)\<rparr>"

text \<open>The states in which a strategy and the simple pipeline start, with an empty log.\<close>

definition fresh_run :: run_state where
  "fresh_run = \<lparr>all_hospitals = [], total_requests = 0, calls = []\<rparr>"

definition fresh_simple :: simple_state where
  "fresh_simple = \<lparr>hospitals = [], request_count = 0, simple_calls = []\<rparr>"

text \<open>A provider whose every request fails.\<close>

definition failing_api :: gmaps where
  "failing_api =
     \<lparr>places_nearby = (\<lambda>h loc r k t. Inl (ApiError ''REQUEST_DENIED'')),
      places_text = (\<lambda>h q t. Inl (ApiError ''REQUEST_DENIED'')),
      place = (\<lambda>h pid. Inl (ApiError ''REQUEST_DENIED''))\<rparr>"

text \<open>The sample rows in non-increasing order of review count.\<close>

definition sample_in_order :: "hospital list" where
  "sample_in_order = map (\<lambda>i. SAMPLE_EYE_HOSPITALS ! i) [1, 0, 2, 4, 7, 5, 9, 8, 3, 6]"

text \<open>
  A provider that times out on every search for the first keyword, answers the
  third keyword with an empty page and every other search with the place \<open>A\<close>; it
  knows the details of \<open>A\<close> only.
\<close>

definition flaky_search :: "string \<Rightarrow> string \<Rightarrow> string \<Rightarrow> exn + search_response" where
  "flaky_search bad none q =
     (if q = bad then Inl Timeout
      else if q = none then Inr \<lparr>results = [], next_page_token = None\<rparr>
      else Inr \<lparr>results = [item ''A''], next_page_token = None\<rparr>)"

definition flaky_api :: gmaps where
  "flaky_api =
     \<lparr>places_nearby = (\<lambda>h loc r k t. flaky_search ''eye hospital'' ''eye clinic'' k),
      places_text =
        (\<lambda>h q t. flaky_search ''eye hospital Bangalore'' ''eye clinic Bangalore'' q),
      place = (\<lambda>h pid. if pid = ''A'' then Inr (Some (details_with 500)) else Inl Timeout)\<rparr>"


section \<open>Sorting routines\<close>

lemma sorts_desc_stable: "sorts_desc stable_sort_values"
  unfolding sorts_desc_def sorted_desc_def stable_sort_values_def
proof (intro allI conjI)
  fix df :: "hospital list"
  show "mset (sort_key (\<lambda>h. - review_count h) df) = mset df" by simp
  have "sorted (map (\<lambda>h. - review_count h) (sort_key (\<lambda>h. - review_count h) df))"
    by (rule sorted_sort_key)
  then show "sorted_wrt (\<lambda>a b. review_count b \<le> review_count a)
               (sort_key (\<lambda>h. - review_count h) df)"
    by (simp add: sorted_map)
qed


lemma sorts_desc_mset: "sorts_desc srt \<Longrightarrow> mset (srt df) = mset df"
  by (simp add: sorts_desc_def)

lemma sorts_desc_set: "sorts_desc srt \<Longrightarrow> set (srt df) = set df"
  by (metis sorts_desc_def mset_eq_setD)

lemma sorts_desc_sorted: "sorts_desc srt \<Longrightarrow> sorted_desc (srt df)"
  by (simp add: sorts_desc_def)

lemma sorts_desc_Nil: "sorts_desc srt \<Longrightarrow> srt [] = []"
  by (metis sorts_desc_def mset_zero_iff)

lemma sorts_desc_distinct_ids:
  assumes "sorts_desc srt"
  shows "distinct (map place_id (srt df)) = distinct (map place_id df)"
proof -
  have "mset (srt df) = mset df" using assms by (simp add: sorts_desc_def)
  then have "mset (map place_id (srt df)) = mset (map place_id df)" by (metis mset_map)
  then show ?thesis by (rule mset_eq_imp_distinct_iff)
qed

text \<open>With pairwise different review counts the sorted order is determined.\<close>

lemma sorted_desc_unique:
  assumes "mset xs = mset ys" "sorted_desc xs" "sorted_desc ys"
    and "distinct (map review_count ys)"
  shows "xs = ys"
proof -
  let ?k = "\<lambda>h. - review_count h"
  have m: "mset (map ?k xs) = mset (map ?k ys)" using assms(1) by (metis mset_map)
  have dy: "distinct (map ?k ys)" using assms(4)
    by (simp add: distinct_map inj_on_def)
  have dx: "distinct (map ?k xs)" using m dy by (metis mset_eq_imp_distinct_iff)
  have sx: "sorted (map ?k xs)" using assms(2) by (simp add: sorted_desc_def sorted_map)
  have sy: "sorted (map ?k ys)" using assms(3) by (simp add: sorted_desc_def sorted_map)
  have "set (map ?k xs) = set (map ?k ys)" using m by (metis mset_eq_setD)
  then have e: "map ?k xs = map ?k ys" using sorted_distinct_set_unique sx sy dx dy by blast
  have s: "set xs = set ys" using assms(1) by (metis mset_eq_setD)
  have "inj_on ?k (set xs \<union> set ys)" using dy s by (simp add: distinct_map)
  then show ?thesis using e by (simp add: inj_on_map_eq_map)
qed

lemma sorts_desc_distinct_keys:
  assumes "sorts_desc srt" "sorted_desc ys" "distinct (map review_count ys)" "mset xs = mset ys"
  shows "srt xs = ys"
  using assms sorted_desc_unique[of "srt xs" ys] by (simp add: sorts_desc_def)

section \<open>Dropping duplicate identifiers\<close>

lemma drop_dups_seen_ids:
  "place_id ` set (drop_dups_seen seen df) = place_id ` set df - set seen"
  by (induction df arbitrary: seen) auto

lemma drop_dups_seen_distinct: "distinct (map place_id (drop_dups_seen seen df))"
  by (induction df arbitrary: seen) (auto simp: drop_dups_seen_ids)

lemma drop_dups_seen_subset: "set (drop_dups_seen seen df) \<subseteq> set df"
  by (induction df arbitrary: seen) auto

lemma drop_dups_seen_first:
  "r \<in> set (drop_dups_seen seen df) \<Longrightarrow> find (\<lambda>x. place_id x = place_id r) df = Some r"
proof (induction df arbitrary: seen)
  case Nil
  then show ?case by simp
next
  case (Cons h hs)
  show ?case
  proof (cases "place_id h \<in> set seen")
    case True
    with Cons.prems have r: "r \<in> set (drop_dups_seen seen hs)" by simp
    then have "place_id r \<in> place_id ` set (drop_dups_seen seen hs)" by simp
    then have "place_id r \<notin> set seen" by (simp add: drop_dups_seen_ids)
    with True have "place_id h \<noteq> place_id r" by auto
    with Cons.IH[OF r] show ?thesis by simp
  next
    case False
    with Cons.prems have "r = h \<or> r \<in> set (drop_dups_seen (place_id h # seen) hs)" by simp
    then show ?thesis
    proof
      assume "r = h"
      then show ?thesis by simp
    next
      assume r: "r \<in> set (drop_dups_seen (place_id h # seen) hs)"
      then have "place_id r \<in> place_id ` set (drop_dups_seen (place_id h # seen) hs)" by simp
      then have "place_id r \<noteq> place_id h" by (auto simp add: drop_dups_seen_ids)
      with Cons.IH[OF r] show ?thesis by simp
    qed
  qed
qed

lemma drop_dups_seen_id:
  "distinct (map place_id df) \<Longrightarrow> place_id ` set df \<inter> set seen = {} \<Longrightarrow>
     drop_dups_seen seen df = df"
  by (induction df arbitrary: seen) auto

lemma drop_duplicates_ids: "place_id ` set (drop_duplicates df) = place_id ` set df"
  by (simp add: drop_duplicates_def drop_dups_seen_ids)

lemma drop_duplicates_distinct: "distinct (map place_id (drop_duplicates df))"
  by (simp add: drop_duplicates_def drop_dups_seen_distinct)

lemma drop_duplicates_first:
  "r \<in> set (drop_duplicates df) \<Longrightarrow> find (\<lambda>x. place_id x = place_id r) df = Some r"
  by (simp add: drop_duplicates_def drop_dups_seen_first)

lemma drop_duplicates_subset: "set (drop_duplicates df) \<subseteq> set df"
  by (simp add: drop_duplicates_def drop_dups_seen_subset)

lemma drop_duplicates_id: "distinct (map place_id df) \<Longrightarrow> drop_duplicates df = df"
  by (simp add: drop_duplicates_def drop_dups_seen_id)

section \<open>The combiner\<close>

text \<open>
  C10. Whatever the two input tables are, the identifiers in the table that
  \<open>combine_results\<close> returns are exactly those of the grid table together with those of
  the text table, so no identifier that occurs in one input only is dropped; and when
  one input is empty the other is returned as it is.
\<close>

theorem combine_results_identifiers:
  assumes "sorts_desc sort_values"
  shows "place_id ` set (combine_results sort_values grid_df text_df)
           = place_id ` set grid_df \<union> place_id ` set text_df
         \<and> combine_results sort_values [] text_df = text_df
         \<and> combine_results sort_values grid_df [] = grid_df"
  using assms
  by (auto simp add: combine_results_def sorts_desc_set drop_duplicates_ids image_Un)

theorem combine_results_identifiers_witness:
  "sorts_desc stable_sort_values
   \<and> place_id ` set (combine_results stable_sort_values
        [test_row ''A'' 500, test_row ''C'' 300] [test_row ''A'' 999, test_row ''B'' 700])
      = {''A'', ''B'', ''C''}
   \<and> combine_results stable_sort_values [] [test_row ''A'' 999, test_row ''B'' 700]
      = [test_row ''A'' 999, test_row ''B'' 700]
   \<and> combine_results stable_sort_values [test_row ''A'' 500, test_row ''C'' 300] []
      = [test_row ''A'' 500, test_row ''C'' 300]"
  using combine_results_identifiers [OF sorts_desc_stable,
      of "[test_row ''A'' 500, test_row ''C'' 300]" "[test_row ''A'' 999, test_row ''B'' 700]"]
    sorts_desc_stable
  by (auto simp add: test_row_def)
section \<open>The keyed store only grows, by well-formed entries\<close>

lemma well_formed_Nil: "well_formed m []"
  by (simp add: well_formed_def)

lemma well_formed_append:
  "well_formed m (xs @ ys) \<longleftrightarrow>
     well_formed m xs \<and> well_formed m ys \<and> fst ` set ys \<inter> fst ` set xs = {}"
  by (auto simp add: well_formed_def)

lemma extends_refl: "extends m al al"
  by (simp add: extends_def well_formed_Nil)

lemma extends_trans:
  assumes "extends m a b" "extends m b c"
  shows "extends m a c"
proof -
  from assms(1) obtain n1 where 1: "b = a @ n1"
    "well_formed m n1" "fst ` set n1 \<inter> fst ` set a = {}"
    by (auto simp: extends_def)
  from assms(2) obtain n2 where 2: "c = b @ n2"
    "well_formed m n2" "fst ` set n2 \<inter> fst ` set b = {}"
    by (auto simp: extends_def)
  have "c = a @ (n1 @ n2)" using 1 2 by simp
  moreover have "well_formed m (n1 @ n2)" using 1 2 by (auto simp: well_formed_append)
  moreover have "fst ` set (n1 @ n2) \<inter> fst ` set a = {}"
    using 1 2 by auto
  ultimately show ?thesis unfolding extends_def by blast
qed

lemma extends_well_formed:
  "extends m al al' \<Longrightarrow> well_formed m al \<Longrightarrow> well_formed m al'"
  by (auto simp: extends_def well_formed_append)

lemma extends_from_empty: "extends m [] al \<Longrightarrow> well_formed m al"
  by (auto simp: extends_def)

lemma extends_map_of:
  assumes "extends m al al'" "map_of al pid = Some h"
  shows "map_of al' pid = Some h"
  using assms by (auto simp: extends_def)

lemma update_fresh: "k \<notin> fst ` set al \<Longrightarrow> AList.update k v al = al @ [(k, v)]"
  by (induction al) auto

lemma extends_insert:
  assumes "pid \<notin> fst ` set al" "place_id info = pid" "m \<le> review_count info"
    "latitude info \<noteq> None" "longitude info \<noteq> None"
  shows "extends m al (AList.update pid info al)"
  using assms unfolding extends_def
  by (intro exI[of _ "[(pid, info)]"]) (simp add: update_fresh well_formed_def)

lemma fold_extends:
  assumes "\<And>p s. extends m (all_hospitals s) (all_hospitals (f p s))"
  shows "extends m (all_hospitals st) (all_hospitals (fold f ps st))"
proof (induction ps arbitrary: st)
  case Nil
  show ?case by (simp add: extends_refl)
next
  case (Cons p ps)
  have "extends m (all_hospitals st) (all_hospitals (f p st))" by (rule assms)
  moreover have "extends m (all_hospitals (f p st)) (all_hospitals (fold f ps (f p st)))"
    by (rule Cons.IH)
  ultimately show ?case using extends_trans by auto
qed

subsection \<open>Grid strategy\<close>

lemma grid_hospital_info_Inr:
  "grid_hospital_info pd rc pid z k = Inr info \<Longrightarrow>
     place_id info = pid \<and> review_count info = rc
     \<and> latitude info \<noteq> None \<and> longitude info \<noteq> None"
  by (auto simp: grid_hospital_info_def split: option.splits)

lemma grid_try_place_extends:
  "extends m (all_hospitals st) (all_hospitals (snd (grid_try_place g m z k p st)))"
  unfolding grid_try_place_def
  by (auto simp: Let_def extends_refl split: option.splits sum.splits
      dest!: grid_hospital_info_Inr intro!: extends_insert)

lemma grid_process_place_extends:
  "extends m (all_hospitals st) (all_hospitals (grid_process_place g m z k p st))"
  by (simp add: grid_process_place_def grid_try_place_extends)

lemma grid_pages_extends:
  "extends m (all_hospitals st) (all_hospitals (snd (grid_pages g m r z loc k tok n st)))"
proof (induction g m r z loc k tok n st rule: grid_pages.induct)
  case (1 g m r z loc k tok n st)
  let ?st1 = "st\<lparr>calls := calls st @ [NearbyCall loc r k tok],
                 total_requests := total_requests st + 1\<rparr>"
  show ?case
  proof (cases "places_nearby g (calls st) loc r k tok")
    case (Inl e)
    then show ?thesis by (subst grid_pages.simps) (simp add: extends_refl)
  next
    case (Inr res)
    have "extends m (all_hospitals ?st1)
            (all_hospitals (fold (grid_process_place g m z k) (results res) ?st1))"
      by (rule fold_extends) (rule grid_process_place_extends)
    then have f: "extends m (all_hospitals st)
            (all_hospitals (fold (grid_process_place g m z k) (results res) ?st1))"
      by simp
    show ?thesis
    proof (cases "results res = []")
      case True
      with Inr show ?thesis by (subst grid_pages.simps) (simp add: extends_refl)
    next
      case ne: False
      show ?thesis
      proof (cases "falsy (next_page_token res) \<or> 3 \<le> Suc n")
        case True
        with Inr ne f show ?thesis by (subst grid_pages.simps) auto
      next
        case False
        with Inr ne have ih: "extends m
            (all_hospitals (fold (grid_process_place g m z k) (results res) ?st1))
            (all_hospitals (snd (grid_pages g m r z loc k (next_page_token res) (Suc n)
              (fold (grid_process_place g m z k) (results res) ?st1))))"
          using "1.IH"[of res] by simp
        from Inr ne False show ?thesis
          using extends_trans[OF f ih] by (subst grid_pages.simps) simp
      qed
    qed
  qed
qed

lemma grid_keyword_extends:
  "extends m (all_hospitals st) (all_hospitals (grid_keyword g m r z loc k st))"
  by (simp add: grid_keyword_def grid_pages_extends)

lemma grid_zone_extends:
  "extends m (all_hospitals st) (all_hospitals (grid_zone g m r ks zl st))"
  unfolding grid_zone_def by (rule fold_extends) (rule grid_keyword_extends)

lemma grid_loops_extends:
  "extends m (all_hospitals st) (all_hospitals (grid_loops g m r ps ks st))"
  unfolding grid_loops_def by (rule fold_extends) (rule grid_zone_extends)

subsection \<open>Text strategy\<close>

lemma text_hospital_info_Inr:
  "text_hospital_info pd rc pid = Inr info \<Longrightarrow>
     place_id info = pid \<and> review_count info = rc
     \<and> latitude info \<noteq> None \<and> longitude info \<noteq> None"
  by (auto simp: text_hospital_info_def split: option.splits)

lemma text_try_place_extends:
  "extends m (all_hospitals st) (all_hospitals (snd (text_try_place g m p st)))"
  unfolding text_try_place_def
  by (auto simp: Let_def extends_refl split: option.splits sum.splits
      dest!: text_hospital_info_Inr intro!: extends_insert)

lemma text_process_place_extends:
  "extends m (all_hospitals st) (all_hospitals (text_process_place g m p st))"
  by (simp add: text_process_place_def text_try_place_extends)

lemma text_pages_extends:
  "extends m (all_hospitals st) (all_hospitals (snd (text_pages g m k tok n st)))"
proof (induction g m k tok n st rule: text_pages.induct)
  case (1 g m k tok n st)
  let ?st1 = "st\<lparr>calls := calls st @ [TextCall (k @ '' Bangalore'') tok],
                 total_requests := total_requests st + 1\<rparr>"
  show ?case
  proof (cases "places_text g (calls st) (k @ '' Bangalore'') tok")
    case (Inl e)
    then show ?thesis by (subst text_pages.simps) (simp add: extends_refl)
  next
    case (Inr res)
    have "extends m (all_hospitals ?st1)
            (all_hospitals (fold (text_process_place g m) (results res) ?st1))"
      by (rule fold_extends) (rule text_process_place_extends)
    then have f: "extends m (all_hospitals st)
            (all_hospitals (fold (text_process_place g m) (results res) ?st1))"
      by simp
    show ?thesis
    proof (cases "results res = []")
      case True
      with Inr show ?thesis by (subst text_pages.simps) (simp add: extends_refl)
    next
      case ne: False
      show ?thesis
      proof (cases "falsy (next_page_token res) \<or> 2 \<le> Suc n")
        case True
        with Inr ne f show ?thesis by (subst text_pages.simps) auto
      next
        case False
        with Inr ne have ih: "extends m
            (all_hospitals (fold (text_process_place g m) (results res) ?st1))
            (all_hospitals (snd (text_pages g m k (next_page_token res) (Suc n)
              (fold (text_process_place g m) (results res) ?st1))))"
          using "1.IH"[of res] by simp
        from Inr ne False show ?thesis
          using extends_trans[OF f ih] by (subst text_pages.simps) simp
      qed
    qed
  qed
qed

lemma text_keyword_extends:
  "extends m (all_hospitals st) (all_hospitals (text_keyword g m k st))"
  by (simp add: text_keyword_def text_pages_extends)

lemma text_loops_extends:
  "extends m (all_hospitals st) (all_hospitals (text_loops g m ks st))"
  unfolding text_loops_def by (rule fold_extends) (rule text_keyword_extends)

subsection \<open>The tables the two strategies return\<close>

lemma table_of_store:
  assumes "sorts_desc srt" "well_formed m al"
  shows "distinct (map place_id (if al \<noteq> [] then srt (map snd al) else []))"
    and "\<forall>r \<in> set (if al \<noteq> [] then srt (map snd al) else []).
           m \<le> review_count r \<and> latitude r \<noteq> None \<and> longitude r \<noteq> None"
    and "sorted_desc (if al \<noteq> [] then srt (map snd al) else [])"
    and "mset (if al \<noteq> [] then srt (map snd al) else []) = mset (map snd al)"
proof -
  have e: "map place_id (map snd al) = map fst al"
    using assms(2) by (auto simp: well_formed_def)
  have "distinct (map fst al)" using assms(2) by (simp add: well_formed_def)
  then have "distinct (map place_id (map snd al))" by (simp only: e)
  then show "distinct (map place_id (if al \<noteq> [] then srt (map snd al) else []))"
    using sorts_desc_distinct_ids[OF assms(1)] by simp
  show "\<forall>r \<in> set (if al \<noteq> [] then srt (map snd al) else []).
           m \<le> review_count r \<and> latitude r \<noteq> None \<and> longitude r \<noteq> None"
    using assms(2) sorts_desc_set[OF assms(1)] by (auto simp: well_formed_def)
  show "sorted_desc (if al \<noteq> [] then srt (map snd al) else [])"
    using sorts_desc_sorted[OF assms(1)] by (simp add: sorted_desc_def)
  show "mset (if al \<noteq> [] then srt (map snd al) else []) = mset (map snd al)"
    using sorts_desc_mset[OF assms(1)] by simp
qed

lemma grid_store_well_formed:
  "well_formed m (all_hospitals (grid_loops g m r ps ks
     \<lparr>all_hospitals = [], total_requests = 0, calls = c0\<rparr>))"
  using grid_loops_extends[of m "\<lparr>all_hospitals = [], total_requests = 0, calls = c0\<rparr>" g r ps ks]
  by (simp add: extends_from_empty)

lemma text_store_well_formed:
  "well_formed m (all_hospitals (text_loops g m ks
     \<lparr>all_hospitals = [], total_requests = 0, calls = c0\<rparr>))"
  using text_loops_extends[of m "\<lparr>all_hospitals = [], total_requests = 0, calls = c0\<rparr>" g ks]
  by (simp add: extends_from_empty)

lemma grid_search_table:
  assumes "sorts_desc srt"
  shows "distinct (map place_id (fst (fetch_hospitals_grid_search g srt m r c0)))"
    and "\<forall>h \<in> set (fst (fetch_hospitals_grid_search g srt m r c0)).
           m \<le> review_count h \<and> latitude h \<noteq> None \<and> longitude h \<noteq> None"
    and "sorted_desc (fst (fetch_hospitals_grid_search g srt m r c0))"
  using table_of_store[OF assms grid_store_well_formed[of m g r GRID_POINTS KEYWORDS c0]]
  by (simp_all add: fetch_hospitals_grid_search_def Let_def)

lemma text_search_table:
  assumes "sorts_desc srt"
  shows "distinct (map place_id (fst (fetch_hospitals_text_search g srt m c0)))"
    and "\<forall>h \<in> set (fst (fetch_hospitals_text_search g srt m c0)).
           m \<le> review_count h \<and> latitude h \<noteq> None \<and> longitude h \<noteq> None"
    and "sorted_desc (fst (fetch_hospitals_text_search g srt m c0))"
  using table_of_store[OF assms text_store_well_formed[of m g KEYWORDS c0]]
  by (simp_all add: fetch_hospitals_text_search_def Let_def)

section \<open>The combiner and the script body\<close>

lemma combine_results_subset:
  "sorts_desc srt \<Longrightarrow> set (combine_results srt g t) \<subseteq> set g \<union> set t"
  using drop_duplicates_subset[of "g @ t"]
  by (auto simp add: combine_results_def sorts_desc_set)

lemma combine_results_distinct:
  assumes "sorts_desc srt" "distinct (map place_id g)" "distinct (map place_id t)"
  shows "distinct (map place_id (combine_results srt g t))"
  using assms
  by (simp add: combine_results_def sorts_desc_distinct_ids drop_duplicates_distinct)

lemma combine_results_sorted:
  assumes "sorts_desc srt" "sorted_desc g" "sorted_desc t"
  shows "sorted_desc (combine_results srt g t)"
  using assms by (simp add: combine_results_def sorts_desc_sorted) (simp add: sorted_desc_def)

lemma combine_results_first:
  assumes "sorts_desc srt" "g \<noteq> []" "t \<noteq> []" "x \<in> set (combine_results srt g t)"
  shows "find (\<lambda>y. place_id y = place_id x) (g @ t) = Some x"
  using assms by (simp add: combine_results_def sorts_desc_set drop_duplicates_first)

lemma final_df_cases:
  "final_df (comprehensive_main g srt go to c0) =
     (if \<not> to \<and> \<not> go then
        combine_results srt (fst (fetch_hospitals_grid_search g srt 100 15000 c0))
          (fst (fetch_hospitals_text_search g srt 100
                  (snd (fetch_hospitals_grid_search g srt 100 15000 c0))))
      else if \<not> to then fst (fetch_hospitals_grid_search g srt 100 15000 c0)
      else if \<not> go then fst (fetch_hospitals_text_search g srt 100 c0)
      else [])"
  by (simp add: comprehensive_main_def Let_def split_beta)

lemma csv_file_final_df:
  "csv_file (comprehensive_main g srt go to c0) =
     (if final_df (comprehensive_main g srt go to c0) \<noteq> []
      then Some (final_df (comprehensive_main g srt go to c0)) else None)"
  by (simp add: comprehensive_main_def Let_def split_beta save_hospitals_to_csv_def)

lemma final_df_table:
  assumes "sorts_desc srt"
  shows "distinct (map place_id (final_df (comprehensive_main g srt go to c0)))"
    and "\<forall>h \<in> set (final_df (comprehensive_main g srt go to c0)).
           100 \<le> review_count h \<and> latitude h \<noteq> None \<and> longitude h \<noteq> None"
    and "sorted_desc (final_df (comprehensive_main g srt go to c0))"
proof -
  define G where "G = fst (fetch_hospitals_grid_search g srt 100 15000 c0)"
  define c1 where "c1 = snd (fetch_hospitals_grid_search g srt 100 15000 c0)"
  define T where "T = fst (fetch_hospitals_text_search g srt 100 c1)"
  define T0 where "T0 = fst (fetch_hospitals_text_search g srt 100 c0)"
  have G: "distinct (map place_id G)"
    "\<forall>h \<in> set G. 100 \<le> review_count h \<and> latitude h \<noteq> None \<and> longitude h \<noteq> None"
    "sorted_desc G"
    unfolding G_def by (rule grid_search_table[OF assms])+
  have T: "distinct (map place_id T)"
    "\<forall>h \<in> set T. 100 \<le> review_count h \<and> latitude h \<noteq> None \<and> longitude h \<noteq> None"
    "sorted_desc T"
    unfolding T_def by (rule text_search_table[OF assms])+
  have T0: "distinct (map place_id T0)"
    "\<forall>h \<in> set T0. 100 \<le> review_count h \<and> latitude h \<noteq> None \<and> longitude h \<noteq> None"
    "sorted_desc T0"
    unfolding T0_def by (rule text_search_table[OF assms])+
  have C: "distinct (map place_id (combine_results srt G T))"
    "sorted_desc (combine_results srt G T)"
    "set (combine_results srt G T) \<subseteq> set G \<union> set T"
    using combine_results_distinct[OF assms G(1) T(1)]
      combine_results_sorted[OF assms G(3) T(3)] combine_results_subset[OF assms]
    by auto
  have C2: "\<forall>h \<in> set (combine_results srt G T).
              100 \<le> review_count h \<and> latitude h \<noteq> None \<and> longitude h \<noteq> None"
    using C(3) G(2) T(2) by blast
  have E: "final_df (comprehensive_main g srt go to c0) =
     (if \<not> to \<and> \<not> go then combine_results srt G T
      else if \<not> to then G else if \<not> go then T0 else [])"
    unfolding G_def T_def T0_def c1_def by (rule final_df_cases)
  show "distinct (map place_id (final_df (comprehensive_main g srt go to c0)))"
    using G(1) T0(1) C(1) by (simp add: E)
  show "\<forall>h \<in> set (final_df (comprehensive_main g srt go to c0)).
           100 \<le> review_count h \<and> latitude h \<noteq> None \<and> longitude h \<noteq> None"
    using G(2) T0(2) C2 by (simp add: E)
  have "sorted_desc []" by (simp add: sorted_desc_def)
  then show "sorted_desc (final_df (comprehensive_main g srt go to c0))"
    using G(3) T0(3) C(2) by (simp add: E)
qed

section \<open>The simple pipeline\<close>

lemma simple_try_place_reviews:
  assumes "\<forall>h \<in> set (hospitals st). m \<le> review_count h"
  shows "\<forall>h \<in> set (hospitals (snd (simple_try_place g m p st))). m \<le> review_count h"
  using assms unfolding simple_try_place_def
  by (auto simp: Let_def simple_hospital_info_def split: option.splits sum.splits)

lemma simple_process_place_reviews:
  assumes "\<forall>h \<in> set (hospitals st). m \<le> review_count h"
  shows "\<forall>h \<in> set (hospitals (simple_process_place g m p st)). m \<le> review_count h"
  using simple_try_place_reviews[OF assms] by (simp add: simple_process_place_def)

lemma simple_fold_reviews:
  assumes "\<forall>h \<in> set (hospitals st). m \<le> review_count h"
  shows "\<forall>h \<in> set (hospitals (fold (simple_process_place g m) ps st)). m \<le> review_count h"
  using assms
proof (induction ps arbitrary: st)
  case Nil
  then show ?case by simp
next
  case (Cons p ps)
  from simple_process_place_reviews[OF Cons.prems]
  have "\<forall>h \<in> set (hospitals (simple_process_place g m p st)). m \<le> review_count h" .
  from Cons.IH[OF this] show ?case by simp
qed

lemma simple_pages_reviews_step:
  assumes "simple_pages g m tok st = Some y"
  shows "(\<forall>h \<in> set (hospitals st). m \<le> review_count h) \<longrightarrow>
         (\<forall>h \<in> set (hospitals (snd y)). m \<le> review_count h)"
proof (rule simple_pages.raw_induct
    [where P = "\<lambda>g m tok st y. (\<forall>h \<in> set (hospitals st). m \<le> review_count h) \<longrightarrow>
                  (\<forall>h \<in> set (hospitals (snd y)). m \<le> review_count h)", OF _ assms])
  fix rec :: "gmaps \<Rightarrow> int \<Rightarrow> string option \<Rightarrow> simple_state \<Rightarrow> (exn option \<times> simple_state) option"
  fix g :: gmaps and m :: int and tok :: "string option" and st :: simple_state
    and y :: "exn option \<times> simple_state"
  let ?st1 = "st\<lparr>simple_calls := simple_calls st @
                  [NearbyCall BANGALORE_CENTER SEARCH_RADIUS ''eye hospital'' tok],
                request_count := request_count st + 1\<rparr>"
  assume IH: "\<And>g m tok st y. rec g m tok st = Some y \<Longrightarrow>
      (\<forall>h \<in> set (hospitals st). m \<le> review_count h) \<longrightarrow>
      (\<forall>h \<in> set (hospitals (snd y)). m \<le> review_count h)"
  assume eq: "(case places_nearby g (simple_calls st) BANGALORE_CENTER SEARCH_RADIUS
                  ''eye hospital'' tok of
      Inl e \<Rightarrow>
        Some (Some e,
              st\<lparr>simple_calls := simple_calls st @
                   [NearbyCall BANGALORE_CENTER SEARCH_RADIUS ''eye hospital'' tok]\<rparr>)
      | Inr places_result \<Rightarrow>
          if falsy (next_page_token places_result)
          then Some (None, fold (simple_process_place g m) (results places_result) ?st1)
          else rec g m (next_page_token places_result)
                (fold (simple_process_place g m) (results places_result) ?st1)) = Some y"
  show "(\<forall>h \<in> set (hospitals st). m \<le> review_count h) \<longrightarrow>
        (\<forall>h \<in> set (hospitals (snd y)). m \<le> review_count h)"
  proof
    assume pre: "\<forall>h \<in> set (hospitals st). m \<le> review_count h"
    show "\<forall>h \<in> set (hospitals (snd y)). m \<le> review_count h"
    proof (cases "places_nearby g (simple_calls st) BANGALORE_CENTER SEARCH_RADIUS
                    ''eye hospital'' tok")
      case (Inl e)
      with pre eq show ?thesis by auto
    next
      case (Inr res)
      have f: "\<forall>h \<in> set (hospitals (fold (simple_process_place g m) (results res) ?st1)).
                 m \<le> review_count h"
        by (rule simple_fold_reviews) (use pre in simp)
      show ?thesis
      proof (cases "falsy (next_page_token res)")
        case True
        with Inr eq f show ?thesis by auto
      next
        case False
        with Inr eq have
          "rec g m (next_page_token res) (fold (simple_process_place g m) (results res) ?st1)
             = Some y" by simp
        from IH[OF this] f show ?thesis by blast
      qed
    qed
  qed
qed

lemma simple_pages_reviews:
  assumes "simple_pages g m tok st = Some y"
    and "\<forall>h \<in> set (hospitals st). m \<le> review_count h"
  shows "\<forall>h \<in> set (hospitals (snd y)). m \<le> review_count h"
  using simple_pages_reviews_step[OF assms(1)] assms(2) by blast

lemma sample_data_reviews:
  "sorts_desc srt \<Longrightarrow> \<forall>h \<in> set (sample_data srt m). m \<le> review_count h"
  by (simp add: sample_data_def sorts_desc_set)

lemma sample_data_sorted: "sorts_desc srt \<Longrightarrow> sorted_desc (sample_data srt m)"
  by (simp add: sample_data_def sorts_desc_sorted)

lemma fetch_from_api_reviews:
  assumes "sorts_desc srt" "fetch_eye_hospitals_from_api g srt m c0 = Some (Some df, c)"
  shows "\<forall>h \<in> set df. m \<le> review_count h" and "sorted_desc df"
proof -
  let ?st0 = "\<lparr>hospitals = [], request_count = 0, simple_calls = c0\<rparr>"
  from assms(2) obtain st where
    p: "simple_pages g m None ?st0 = Some (None, st)" and df: "df = srt (hospitals st)"
    unfolding fetch_eye_hospitals_from_api_def
    by (auto split: option.splits if_splits)
  from simple_pages_reviews[OF p] have "\<forall>h \<in> set (hospitals st). m \<le> review_count h" by simp
  then show "\<forall>h \<in> set df. m \<le> review_count h"
    using df sorts_desc_set[OF assms(1)] by simp
  show "sorted_desc df" using df sorts_desc_sorted[OF assms(1)] by simp
qed

lemma get_eye_hospitals_table:
  assumes "sorts_desc srt" "get_eye_hospitals g srt m us c0 = Some (df, c)"
  shows "\<forall>h \<in> set df. m \<le> review_count h" and "sorted_desc df"
proof -
  have "df = sample_data srt m \<or> (\<exists>c'. fetch_eye_hospitals_from_api g srt m c0 = Some (Some df, c'))"
    using assms(2) unfolding get_eye_hospitals_def
    by (auto split: option.splits if_splits)
  then show "\<forall>h \<in> set df. m \<le> review_count h" and "sorted_desc df"
    using sample_data_reviews[OF assms(1), of m] sample_data_sorted[OF assms(1), of m]
      fetch_from_api_reviews[OF assms(1)]
    by blast+
qed

section \<open>C1: one record per identifier, the first one\<close>

lemma grid_process_place_known:
  assumes "rp_place_id p = Some pid" "pid \<in> fst ` set (all_hospitals st)"
  shows "grid_process_place g m z k p st = st"
  using assms by (simp add: grid_process_place_def grid_try_place_def)

lemma text_process_place_known:
  assumes "rp_place_id p = Some pid" "pid \<in> fst ` set (all_hospitals st)"
  shows "text_process_place g m p st = st"
  using assms by (simp add: text_process_place_def text_try_place_def split: option.splits)

lemma repeating_api_run:
  "get_eye_hospitals repeating_api stable_sort_values 100 False []
     = Some ([simple_hospital_info (details_with 600) 600 ''A'',
              simple_hospital_info (details_with 500) 500 ''A''],
             [NearbyCall BANGALORE_CENTER SEARCH_RADIUS ''eye hospital'' None,
              PlaceCall ''A'', PlaceCall ''A''])"
  unfolding get_eye_hospitals_def fetch_eye_hospitals_from_api_def
  by (subst simple_pages.simps)
     (simp add: repeating_api_def falsy_def simple_process_place_def simple_try_place_def
        item_def details_with_def dict_get_def simple_hospital_info_def stable_sort_values_def)

text \<open>
  C1, as stated, fails on the simple pipeline, which appends every qualifying record to a
  plain list: when the provider lists the place \<open>A\<close> twice, and answers 500 reviews at the
  first details request and 600 at the second, the table holds two records for \<open>A\<close>,
  with different attributes.
\<close>

theorem simple_pipeline_keeps_duplicates:
  "map_option (\<lambda>r. map (\<lambda>h. (place_id h, review_count h)) (fst r))
     (get_eye_hospitals repeating_api stable_sort_values 100 False [])
   = Some [(''A'', 600), (''A'', 500)]"
  by (simp add: repeating_api_run simple_hospital_info_def)

text \<open>
  C1, amended. In the comprehensive script the table of the grid strategy, the table of
  the text strategy and the final table of the script (for every choice of the two
  flags) hold at most one record per place identifier. An item whose identifier is
  already in the keyed store leaves the whole run state as it is, whatever the provider
  would answer for it now; a record in the store is still there, unchanged, after the
  loops have run; and \<open>combine_results\<close> on two non-empty tables keeps for each
  identifier the first row of the grid rows followed by the text rows.
\<close>

theorem comprehensive_unique_first_wins:
  assumes "sorts_desc sort_values"
  shows "distinct (map place_id (fst (fetch_hospitals_grid_search g sort_values m r c0)))
    \<and> distinct (map place_id (fst (fetch_hospitals_text_search g sort_values m c0)))
    \<and> distinct (map place_id (final_df (comprehensive_main g sort_values go to c0)))
    \<and> (rp_place_id p = Some pid \<and> pid \<in> fst ` set (all_hospitals st) \<longrightarrow>
          grid_process_place g m z k p st = st \<and> text_process_place g m p st = st)
    \<and> (map_of (all_hospitals st) pid = Some h \<longrightarrow>
          map_of (all_hospitals (grid_loops g m r ps ks st)) pid = Some h
          \<and> map_of (all_hospitals (text_loops g m ks st)) pid = Some h)
    \<and> (grid_df \<noteq> [] \<and> text_df \<noteq> [] \<and> x \<in> set (combine_results sort_values grid_df text_df) \<longrightarrow>
          find (\<lambda>y. place_id y = place_id x) (grid_df @ text_df) = Some x)"
proof (intro conjI impI)
  show "distinct (map place_id (fst (fetch_hospitals_grid_search g sort_values m r c0)))"
    by (rule grid_search_table(1)[OF assms])
  show "distinct (map place_id (fst (fetch_hospitals_text_search g sort_values m c0)))"
    by (rule text_search_table(1)[OF assms])
  show "distinct (map place_id (final_df (comprehensive_main g sort_values go to c0)))"
    by (rule final_df_table(1)[OF assms])
next
  assume "rp_place_id p = Some pid \<and> pid \<in> fst ` set (all_hospitals st)"
  then show "grid_process_place g m z k p st = st" and "text_process_place g m p st = st"
    by (simp_all add: grid_process_place_known text_process_place_known)
next
  assume "map_of (all_hospitals st) pid = Some h"
  then show "map_of (all_hospitals (grid_loops g m r ps ks st)) pid = Some h"
    and "map_of (all_hospitals (text_loops g m ks st)) pid = Some h"
    using extends_map_of[OF grid_loops_extends] extends_map_of[OF text_loops_extends]
    by blast+
next
  assume "grid_df \<noteq> [] \<and> text_df \<noteq> [] \<and> x \<in> set (combine_results sort_values grid_df text_df)"
  then show "find (\<lambda>y. place_id y = place_id x) (grid_df @ text_df) = Some x"
    using combine_results_first[OF assms] by blast
qed

theorem comprehensive_unique_first_wins_witness:
  "sorts_desc stable_sort_values
   \<and> distinct (map place_id (fst (fetch_hospitals_grid_search repeating_api stable_sort_values 100 15000 [])))
   \<and> distinct (map place_id (fst (fetch_hospitals_text_search repeating_api stable_sort_values 100 [])))
   \<and> distinct (map place_id (final_df (comprehensive_main repeating_api stable_sort_values False False [])))
   \<and> grid_process_place repeating_api 100 1 ''eye hospital'' (item ''A'')
        \<lparr>all_hospitals = [(''A'', test_row ''A'' 500)], total_requests = 2, calls = []\<rparr>
      = \<lparr>all_hospitals = [(''A'', test_row ''A'' 500)], total_requests = 2, calls = []\<rparr>
   \<and> text_process_place repeating_api 100 (item ''A'')
        \<lparr>all_hospitals = [(''A'', test_row ''A'' 500)], total_requests = 2, calls = []\<rparr>
      = \<lparr>all_hospitals = [(''A'', test_row ''A'' 500)], total_requests = 2, calls = []\<rparr>
   \<and> map_of (all_hospitals (grid_loops repeating_api 100 15000 GRID_POINTS KEYWORDS
        \<lparr>all_hospitals = [(''A'', test_row ''A'' 500)], total_requests = 2, calls = []\<rparr>)) ''A''
      = Some (test_row ''A'' 500)
   \<and> map_of (all_hospitals (text_loops repeating_api 100 KEYWORDS
        \<lparr>all_hospitals = [(''A'', test_row ''A'' 500)], total_requests = 2, calls = []\<rparr>)) ''A''
      = Some (test_row ''A'' 500)
   \<and> find (\<lambda>y. place_id y = place_id (test_row ''A'' 500))
        ([test_row ''A'' 500] @ [test_row ''A'' 999, test_row ''B'' 700])
      = Some (test_row ''A'' 500)"
proof -
  have m: "test_row ''A'' 500 \<in> set (combine_results stable_sort_values
             [test_row ''A'' 500] [test_row ''A'' 999, test_row ''B'' 700])"
    by (simp add: combine_results_def drop_duplicates_def stable_sort_values_def test_row_def)
  show ?thesis
    using sorts_desc_stable m
      comprehensive_unique_first_wins [OF sorts_desc_stable,
        where g = repeating_api and m = 100 and r = 15000 and ?c0.0 = "[]"
          and go = False and to = False and p = "item ''A''" and pid = "''A''"
          and st = "\<lparr>all_hospitals = [(''A'', test_row ''A'' 500)], total_requests = 2, calls = []\<rparr>"
          and z = 1 and k = "''eye hospital''" and h = "test_row ''A'' 500"
          and ps = GRID_POINTS and ks = KEYWORDS
          and grid_df = "[test_row ''A'' 500]"
          and text_df = "[test_row ''A'' 999, test_row ''B'' 700]"
          and x = "test_row ''A'' 500"]
    by (simp add: item_def)
qed

section \<open>C2: the review filter\<close>

lemma extends_reviews:
  assumes "extends m al al'" "\<forall>kh \<in> set al. m \<le> review_count (snd kh)"
  shows "\<forall>kh \<in> set al'. m \<le> review_count (snd kh)"
proof -
  from assms(1) obtain new where n: "al' = al @ new" "well_formed m new"
    by (auto simp: extends_def)
  from n(2) have "\<forall>kh \<in> set new. m \<le> review_count (snd kh)"
    by (simp add: well_formed_def)
  with assms(2) n(1) show ?thesis by auto
qed

lemma grid_process_place_below:
  assumes "rp_place_id p = Some pid" "place g (calls st) pid = Inr (Some pd)"
    "dict_get (pd_user_ratings_total pd) 0 < m"
  shows "all_hospitals (grid_process_place g m z k p st) = all_hospitals st"
  using assms by (simp add: grid_process_place_def grid_try_place_def Let_def)

lemma text_process_place_below:
  assumes "rp_place_id p = Some pid" "place g (calls st) pid = Inr (Some pd)"
    "dict_get (pd_user_ratings_total pd) 0 < m"
  shows "all_hospitals (text_process_place g m p st) = all_hospitals st"
  using assms
  by (simp add: text_process_place_def text_try_place_def Let_def split: option.splits)

lemma simple_process_place_below:
  assumes "rp_place_id p = Some pid" "place g (simple_calls s) pid = Inr (Some pd)"
    "dict_get (pd_user_ratings_total pd) 0 < m"
  shows "hospitals (simple_process_place g m p s) = hospitals s"
  using assms by (simp add: simple_process_place_def simple_try_place_def Let_def)

text \<open>
  C2. Every record of the table of the grid strategy, of the text strategy, of the final
  table of the comprehensive script (which runs with the threshold 100) and of the table
  of the simple pipeline has a review count of at least the threshold. The test stands
  before the insertion: a store, or the list of the simple pipeline, whose records all
  meet the threshold still does so after any item is processed, and an item whose
  details carry a review count below the threshold leaves the store, or the list, as it
  is. The tables are the sorted values of the store; nothing is removed afterwards.
\<close>

theorem review_filter_before_insertion:
  assumes "sorts_desc sort_values"
  shows "(\<forall>h \<in> set (fst (fetch_hospitals_grid_search g sort_values m r c0)). m \<le> review_count h)
    \<and> (\<forall>h \<in> set (fst (fetch_hospitals_text_search g sort_values m c0)). m \<le> review_count h)
    \<and> (\<forall>h \<in> set (final_df (comprehensive_main g sort_values go to c0)). 100 \<le> review_count h)
    \<and> (get_eye_hospitals g sort_values m us c0 = Some (df, c) \<longrightarrow>
          (\<forall>h \<in> set df. m \<le> review_count h))
    \<and> ((\<forall>kh \<in> set (all_hospitals st). m \<le> review_count (snd kh)) \<longrightarrow>
          (\<forall>kh \<in> set (all_hospitals (grid_process_place g m z k p st)).
             m \<le> review_count (snd kh))
          \<and> (\<forall>kh \<in> set (all_hospitals (text_process_place g m p st)).
             m \<le> review_count (snd kh)))
    \<and> ((\<forall>h \<in> set (hospitals s). m \<le> review_count h) \<longrightarrow>
          (\<forall>h \<in> set (hospitals (simple_process_place g m p s)). m \<le> review_count h))
    \<and> (rp_place_id p2 = Some pid \<and> place g2 (calls st2) pid = Inr (Some pd)
          \<and> dict_get (pd_user_ratings_total pd) 0 < m2 \<longrightarrow>
          all_hospitals (grid_process_place g2 m2 z k p2 st2) = all_hospitals st2
          \<and> all_hospitals (text_process_place g2 m2 p2 st2) = all_hospitals st2)
    \<and> (rp_place_id p2 = Some pid \<and> place g2 (simple_calls s2) pid = Inr (Some pd)
          \<and> dict_get (pd_user_ratings_total pd) 0 < m2 \<longrightarrow>
          hospitals (simple_process_place g2 m2 p2 s2) = hospitals s2)"
proof (intro conjI impI)
  show "\<forall>h \<in> set (fst (fetch_hospitals_grid_search g sort_values m r c0)). m \<le> review_count h"
    using grid_search_table(2)[OF assms] by blast
  show "\<forall>h \<in> set (fst (fetch_hospitals_text_search g sort_values m c0)). m \<le> review_count h"
    using text_search_table(2)[OF assms] by blast
  show "\<forall>h \<in> set (final_df (comprehensive_main g sort_values go to c0)). 100 \<le> review_count h"
    using final_df_table(2)[OF assms] by blast
next
  assume "get_eye_hospitals g sort_values m us c0 = Some (df, c)"
  then show "\<forall>h \<in> set df. m \<le> review_count h"
    by (rule get_eye_hospitals_table(1)[OF assms])
next
  assume a: "\<forall>kh \<in> set (all_hospitals st). m \<le> review_count (snd kh)"
  show "\<forall>kh \<in> set (all_hospitals (grid_process_place g m z k p st)). m \<le> review_count (snd kh)"
    by (rule extends_reviews[OF grid_process_place_extends a])
  show "\<forall>kh \<in> set (all_hospitals (text_process_place g m p st)). m \<le> review_count (snd kh)"
    by (rule extends_reviews[OF text_process_place_extends a])
next
  assume "\<forall>h \<in> set (hospitals s). m \<le> review_count h"
  then show "\<forall>h \<in> set (hospitals (simple_process_place g m p s)). m \<le> review_count h"
    by (rule simple_process_place_reviews)
next
  assume "rp_place_id p2 = Some pid \<and> place g2 (calls st2) pid = Inr (Some pd)
          \<and> dict_get (pd_user_ratings_total pd) 0 < m2"
  then show "all_hospitals (grid_process_place g2 m2 z k p2 st2) = all_hospitals st2"
    and "all_hospitals (text_process_place g2 m2 p2 st2) = all_hospitals st2"
    using grid_process_place_below text_process_place_below by blast+
next
  assume "rp_place_id p2 = Some pid \<and> place g2 (simple_calls s2) pid = Inr (Some pd)
          \<and> dict_get (pd_user_ratings_total pd) 0 < m2"
  then show "hospitals (simple_process_place g2 m2 p2 s2) = hospitals s2"
    using simple_process_place_below by blast
qed

theorem review_filter_before_insertion_witness:
  "sorts_desc stable_sort_values
   \<and> list_all (\<lambda>h. 100 \<le> review_count h)
        (fst (fetch_hospitals_grid_search repeating_api stable_sort_values 100 15000 []))
   \<and> list_all (\<lambda>h. 100 \<le> review_count h)
        (fst (fetch_hospitals_text_search repeating_api stable_sort_values 100 []))
   \<and> list_all (\<lambda>h. 100 \<le> review_count h)
        (final_df (comprehensive_main repeating_api stable_sort_values False False []))
   \<and> list_all (\<lambda>h. 100 \<le> review_count h)
        [simple_hospital_info (details_with 600) 600 ''A'',
         simple_hospital_info (details_with 500) 500 ''A'']
   \<and> list_all (\<lambda>kh. 100 \<le> review_count (snd kh))
        (all_hospitals (grid_process_place repeating_api 100 1 ''eye clinic'' (item ''B'')
          \<lparr>all_hospitals = [(''A'', test_row ''A'' 500)], total_requests = 2, calls = []\<rparr>))
   \<and> list_all (\<lambda>kh. 100 \<le> review_count (snd kh))
        (all_hospitals (text_process_place repeating_api 100 (item ''B'')
          \<lparr>all_hospitals = [(''A'', test_row ''A'' 500)], total_requests = 2, calls = []\<rparr>))
   \<and> list_all (\<lambda>h. 100 \<le> review_count h)
        (hospitals (simple_process_place repeating_api 100 (item ''B'')
          \<lparr>hospitals = [test_row ''A'' 500], request_count = 2, simple_calls = []\<rparr>))
   \<and> all_hospitals (grid_process_place repeating_api 1000 1 ''eye clinic'' (item ''B'')
          \<lparr>all_hospitals = [(''A'', test_row ''A'' 5000)], total_requests = 2, calls = []\<rparr>)
      = [(''A'', test_row ''A'' 5000)]
   \<and> all_hospitals (text_process_place repeating_api 1000 (item ''B'')
          \<lparr>all_hospitals = [(''A'', test_row ''A'' 5000)], total_requests = 2, calls = []\<rparr>)
      = [(''A'', test_row ''A'' 5000)]
   \<and> hospitals (simple_process_place repeating_api 1000 (item ''B'')
          \<lparr>hospitals = [test_row ''A'' 5000], request_count = 2, simple_calls = []\<rparr>)
      = [test_row ''A'' 5000]"
proof -
  have pl: "place repeating_api [] ''B'' = Inr (Some (details_with 500))"
    by (simp add: repeating_api_def)
  have lt: "dict_get (pd_user_ratings_total (details_with 500)) 0 < 1000"
    by (simp add: details_with_def dict_get_def)
  show ?thesis
    using sorts_desc_stable repeating_api_run pl lt
      review_filter_before_insertion [OF sorts_desc_stable,
        where g = repeating_api and m = 100 and r = 15000 and ?c0.0 = "[]"
          and go = False and to = False and us = False
          and df = "[simple_hospital_info (details_with 600) 600 ''A'',
                     simple_hospital_info (details_with 500) 500 ''A'']"
          and c = "[NearbyCall BANGALORE_CENTER SEARCH_RADIUS ''eye hospital'' None,
                    PlaceCall ''A'', PlaceCall ''A'']"
          and st = "\<lparr>all_hospitals = [(''A'', test_row ''A'' 500)], total_requests = 2, calls = []\<rparr>"
          and s = "\<lparr>hospitals = [test_row ''A'' 500], request_count = 2, simple_calls = []\<rparr>"
          and z = 1 and k = "''eye clinic''" and p = "item ''B''"
          and ?p2.0 = "item ''B''" and pid = "''B''" and ?g2.0 = repeating_api
          and ?st2.0 = "\<lparr>all_hospitals = [(''A'', test_row ''A'' 5000)], total_requests = 2, calls = []\<rparr>"
          and ?s2.0 = "\<lparr>hospitals = [test_row ''A'' 5000], request_count = 2, simple_calls = []\<rparr>"
          and pd = "details_with 500" and ?m2.0 = 1000]
    by (simp add: item_def test_row_def list_all_iff)
qed

section \<open>C7: coordinates and absent fields\<close>








section \<open>C8: the haversine distance and the 50 km test\<close>

lemma haversine_self: "haversine_distance lat lon lat lon = 0"
  by (simp add: haversine_distance_def atan2_def)








section \<open>C3: the order of the tables\<close>

lemma sorted_desc_Nil: "sorted_desc []"
  by (simp add: sorted_desc_def)










section \<open>C4: the merge of the two tables\<close>














section \<open>C5: pagination\<close>

lemma page_requests_append [simp]:
  "page_requests (xs @ ys) = page_requests xs @ page_requests ys"
  by (simp add: page_requests_def)

lemma page_requests_single [simp]:
  "page_requests [PlaceCall pid] = []"
  "page_requests [NearbyCall loc r k tok] = [NearbyCall loc r k tok]"
  "page_requests [TextCall q tok] = [TextCall q tok]"
  by (simp_all add: page_requests_def is_search_call_def)

lemma grid_process_place_requests:
  "page_requests (calls (grid_process_place g m z k p st)) = page_requests (calls st)"
  by (simp add: grid_process_place_def grid_try_place_def Let_def
      split: option.splits sum.splits)

lemma text_process_place_requests:
  "page_requests (calls (text_process_place g m p st)) = page_requests (calls st)"
  by (simp add: text_process_place_def text_try_place_def Let_def
      split: option.splits sum.splits)

lemma simple_process_place_requests:
  "page_requests (simple_calls (simple_process_place g m p s)) = page_requests (simple_calls s)"
  by (simp add: simple_process_place_def simple_try_place_def Let_def
      split: option.splits sum.splits)

lemma grid_fold_requests:
  "page_requests (calls (fold (grid_process_place g m z k) ps st)) = page_requests (calls st)"
  by (induction ps arbitrary: st) (simp_all add: grid_process_place_requests)

lemma text_fold_requests:
  "page_requests (calls (fold (text_process_place g m) ps st)) = page_requests (calls st)"
  by (induction ps arbitrary: st) (simp_all add: text_process_place_requests)

lemma simple_fold_requests:
  "page_requests (simple_calls (fold (simple_process_place g m) ps s))
     = page_requests (simple_calls s)"
  by (induction ps arbitrary: s) (simp_all add: simple_process_place_requests)

lemma grid_pages_bound:
  "length (page_requests (calls (snd (grid_pages g m r z loc k tok n st))))
     \<le> length (page_requests (calls st)) + (if n < 3 then 3 - n else 1)"
proof (induction g m r z loc k tok n st rule: grid_pages.induct)
  case (1 g m r z loc k tok n st)
  let ?st1 = "st\<lparr>calls := calls st @ [NearbyCall loc r k tok],
                 total_requests := total_requests st + 1\<rparr>"
  show ?case
  proof (cases "places_nearby g (calls st) loc r k tok")
    case (Inl e)
    then show ?thesis by (subst grid_pages.simps) auto
  next
    case (Inr res)
    show ?thesis
    proof (cases "results res = [] \<or> falsy (next_page_token res) \<or> 3 \<le> Suc n")
      case True
      with Inr show ?thesis
        by (subst grid_pages.simps) (auto simp add: grid_fold_requests)
    next
      case False
      then have ih: "length (page_requests (calls (snd (grid_pages g m r z loc k
              (next_page_token res) (Suc n)
              (fold (grid_process_place g m z k) (results res) ?st1)))))
          \<le> length (page_requests (calls
                (fold (grid_process_place g m z k) (results res) ?st1)))
              + (if Suc n < 3 then 3 - Suc n else 1)"
        using "1.IH"[OF Inr] by simp
      from False Inr show ?thesis
        using ih by (subst grid_pages.simps) (auto simp add: grid_fold_requests)
    qed
  qed
qed

lemma text_pages_bound:
  "length (page_requests (calls (snd (text_pages g m k tok n st))))
     \<le> length (page_requests (calls st)) + (if n < 2 then 2 - n else 1)"
proof (induction g m k tok n st rule: text_pages.induct)
  case (1 g m k tok n st)
  let ?st1 = "st\<lparr>calls := calls st @ [TextCall (k @ '' Bangalore'') tok],
                 total_requests := total_requests st + 1\<rparr>"
  show ?case
  proof (cases "places_text g (calls st) (k @ '' Bangalore'') tok")
    case (Inl e)
    then show ?thesis by (subst text_pages.simps) auto
  next
    case (Inr res)
    show ?thesis
    proof (cases "results res = [] \<or> falsy (next_page_token res) \<or> 2 \<le> Suc n")
      case True
      with Inr show ?thesis
        by (subst text_pages.simps) (auto simp add: text_fold_requests)
    next
      case False
      then have ih: "length (page_requests (calls (snd (text_pages g m k
              (next_page_token res) (Suc n)
              (fold (text_process_place g m) (results res) ?st1)))))
          \<le> length (page_requests (calls
                (fold (text_process_place g m) (results res) ?st1)))
              + (if Suc n < 2 then 2 - Suc n else 1)"
        using "1.IH"[OF Inr] by simp
      from False Inr show ?thesis
        using ih by (subst text_pages.simps) (auto simp add: text_fold_requests)
    qed
  qed
qed

lemma grid_pages_last_page:
  assumes "places_nearby g (calls st) loc r k tok = Inr res" "falsy (next_page_token res)"
  shows "page_requests (calls (snd (grid_pages g m r z loc k tok n st)))
           = page_requests (calls st) @ [NearbyCall loc r k tok]"
  using assms by (subst grid_pages.simps) (simp add: grid_fold_requests)

lemma text_pages_last_page:
  assumes "places_text g (calls st) (k @ '' Bangalore'') tok = Inr res"
    "falsy (next_page_token res)"
  shows "page_requests (calls (snd (text_pages g m k tok n st)))
           = page_requests (calls st) @ [TextCall (k @ '' Bangalore'') tok]"
  using assms by (subst text_pages.simps) (simp add: text_fold_requests)

lemma simple_pages_last_page:
  assumes "places_nearby g (simple_calls s) BANGALORE_CENTER SEARCH_RADIUS ''eye hospital'' tok
             = Inr res" "falsy (next_page_token res)"
  shows "map_option (\<lambda>y. (fst y, page_requests (simple_calls (snd y)))) (simple_pages g m tok s)
           = Some (None, page_requests (simple_calls s) @
                     [NearbyCall BANGALORE_CENTER SEARCH_RADIUS ''eye hospital'' tok])"
  using assms by (subst simple_pages.simps) (simp add: simple_fold_requests)

lemma simple_pages_endless_aux:
  assumes "simple_pages g m tok s = Some y"
  shows "g \<noteq> endless_api"
proof (rule simple_pages.raw_induct[where P = "\<lambda>g m tok s y. g \<noteq> endless_api", OF _ assms])
  fix rec :: "gmaps \<Rightarrow> int \<Rightarrow> string option \<Rightarrow> simple_state \<Rightarrow> (exn option \<times> simple_state) option"
  fix g :: gmaps and m :: int and tok :: "string option" and st :: simple_state
    and y :: "exn option \<times> simple_state"
  let ?st1 = "st\<lparr>simple_calls := simple_calls st @
                  [NearbyCall BANGALORE_CENTER SEARCH_RADIUS ''eye hospital'' tok],
                request_count := request_count st + 1\<rparr>"
  assume IH: "\<And>g m tok st y. rec g m tok st = Some y \<Longrightarrow> g \<noteq> endless_api"
  assume eq: "(case places_nearby g (simple_calls st) BANGALORE_CENTER SEARCH_RADIUS
                  ''eye hospital'' tok of
      Inl e \<Rightarrow>
        Some (Some e,
              st\<lparr>simple_calls := simple_calls st @
                   [NearbyCall BANGALORE_CENTER SEARCH_RADIUS ''eye hospital'' tok]\<rparr>)
      | Inr places_result \<Rightarrow>
          if falsy (next_page_token places_result)
          then Some (None, fold (simple_process_place g m) (results places_result) ?st1)
          else rec g m (next_page_token places_result)
                (fold (simple_process_place g m) (results places_result) ?st1)) = Some y"
  show "g \<noteq> endless_api"
  proof
    assume g: "g = endless_api"
    with eq have "rec g m (Some ''t'') (fold (simple_process_place g m) [] ?st1) = Some y"
      by (simp add: endless_api_def falsy_def)
    from IH[OF this] g show False by simp
  qed
qed

lemma simple_pages_endless: "simple_pages endless_api m tok s = None"
  using simple_pages_endless_aux[of endless_api m tok s] by (cases "simple_pages endless_api m tok s") auto

lemma paging_grid:
  "fst (grid_pages paging_api 100 15000 1 (12.9716, 77.5946) ''eye hospital'' None 0 fresh_run)
     = None
   \<and> page_requests (calls (snd (grid_pages paging_api 100 15000 1 (12.9716, 77.5946)
        ''eye hospital'' None 0 fresh_run)))
     = [NearbyCall (12.9716, 77.5946) 15000 ''eye hospital'' None,
        NearbyCall (12.9716, 77.5946) 15000 ''eye hospital'' (Some ''t1''),
        NearbyCall (12.9716, 77.5946) 15000 ''eye hospital'' (Some ''t2'')]
   \<and> map fst (all_hospitals (snd (grid_pages paging_api 100 15000 1 (12.9716, 77.5946)
        ''eye hospital'' None 0 fresh_run)))
     = [''P1'', ''P2'', ''P3'']"
  by (simp add: grid_pages.simps paging_api_def three_pages_def fresh_run_def item_def falsy_def
      grid_process_place_def grid_try_place_def details_with_def dict_get_def
      grid_hospital_info_def page_requests_def is_search_call_def)

lemma paging_text:
  "fst (text_pages paging_api 100 ''eye hospital'' None 0 fresh_run) = None
   \<and> page_requests (calls (snd (text_pages paging_api 100 ''eye hospital'' None 0 fresh_run)))
     = [TextCall ''eye hospital Bangalore'' None,
        TextCall ''eye hospital Bangalore'' (Some ''t1'')]
   \<and> map fst (all_hospitals (snd (text_pages paging_api 100 ''eye hospital'' None 0 fresh_run)))
     = [''P1'', ''P2'']"
  by (simp add: text_pages.simps paging_api_def three_pages_def fresh_run_def item_def falsy_def
      text_process_place_def text_try_place_def details_with_def dict_get_def
      text_hospital_info_def BANGALORE_CENTER_def haversine_self page_requests_def
      is_search_call_def)

lemma paging_simple:
  "map_option (\<lambda>y. (fst y, page_requests (simple_calls (snd y)), map place_id (hospitals (snd y))))
     (simple_pages paging_api 100 None fresh_simple)
   = Some (None,
           [NearbyCall BANGALORE_CENTER SEARCH_RADIUS ''eye hospital'' None,
            NearbyCall BANGALORE_CENTER SEARCH_RADIUS ''eye hospital'' (Some ''t1''),
            NearbyCall BANGALORE_CENTER SEARCH_RADIUS ''eye hospital'' (Some ''t2'')],
           [''P1'', ''P2'', ''P3''])"
  by (simp add: simple_pages.simps paging_api_def three_pages_def fresh_simple_def item_def
      falsy_def simple_process_place_def simple_try_place_def details_with_def dict_get_def
      simple_hospital_info_def page_requests_def is_search_call_def)

text \<open>
  C5, as stated, fails on the text strategy, whose loop stops at page 2: when the first
  two responses carry a token and the third would not, it issues two page requests and
  stores the results of two pages.
\<close>

theorem text_search_stops_after_two_pages:
  "page_requests (calls (snd (text_pages paging_api 100 ''eye hospital'' None 0 fresh_run)))
     = [TextCall ''eye hospital Bangalore'' None,
        TextCall ''eye hospital Bangalore'' (Some ''t1'')]
   \<and> map fst (all_hospitals (snd (text_pages paging_api 100 ''eye hospital'' None 0 fresh_run)))
     = [''P1'', ''P2'']"
  using paging_text by simp

text \<open>
  C5, amended. One query of the grid strategy issues at most 3 page requests and one
  query of the text strategy at most 2. In all three loops a response without a token
  ends the query with that page request. The simple pipeline has no limit on the number
  of pages: on a provider whose every response carries a token its loop never ends.
  When the first two responses carry a token and the third does not, the grid strategy
  and the simple pipeline issue exactly 3 page requests and store the results of 3
  pages; the text strategy issues 2 and stores the results of 2.
\<close>

theorem pagination_token_and_page_limit:
  "length (page_requests (calls (snd (grid_pages g m r z loc k None 0 st))))
     \<le> length (page_requests (calls st)) + 3
   \<and> length (page_requests (calls (snd (text_pages g m k None 0 st))))
     \<le> length (page_requests (calls st)) + 2
   \<and> (places_nearby g (calls st) loc r k tok = Inr res \<and> falsy (next_page_token res) \<longrightarrow>
        page_requests (calls (snd (grid_pages g m r z loc k tok n st)))
          = page_requests (calls st) @ [NearbyCall loc r k tok])
   \<and> (places_text g (calls st) (k @ '' Bangalore'') tok = Inr res \<and> falsy (next_page_token res) \<longrightarrow>
        page_requests (calls (snd (text_pages g m k tok n st)))
          = page_requests (calls st) @ [TextCall (k @ '' Bangalore'') tok])
   \<and> (places_nearby g (simple_calls s) BANGALORE_CENTER SEARCH_RADIUS ''eye hospital'' tok = Inr res
        \<and> falsy (next_page_token res) \<longrightarrow>
        map_option (\<lambda>y. (fst y, page_requests (simple_calls (snd y)))) (simple_pages g m tok s)
          = Some (None, page_requests (simple_calls s) @
                    [NearbyCall BANGALORE_CENTER SEARCH_RADIUS ''eye hospital'' tok]))
   \<and> simple_pages endless_api m tok s = None
   \<and> page_requests (calls (snd (grid_pages paging_api 100 15000 1 (12.9716, 77.5946)
        ''eye hospital'' None 0 fresh_run)))
     = [NearbyCall (12.9716, 77.5946) 15000 ''eye hospital'' None,
        NearbyCall (12.9716, 77.5946) 15000 ''eye hospital'' (Some ''t1''),
        NearbyCall (12.9716, 77.5946) 15000 ''eye hospital'' (Some ''t2'')]
   \<and> map fst (all_hospitals (snd (grid_pages paging_api 100 15000 1 (12.9716, 77.5946)
        ''eye hospital'' None 0 fresh_run)))
     = [''P1'', ''P2'', ''P3'']
   \<and> map_option (\<lambda>y. (fst y, page_requests (simple_calls (snd y)), map place_id (hospitals (snd y))))
        (simple_pages paging_api 100 None fresh_simple)
     = Some (None,
           [NearbyCall BANGALORE_CENTER SEARCH_RADIUS ''eye hospital'' None,
            NearbyCall BANGALORE_CENTER SEARCH_RADIUS ''eye hospital'' (Some ''t1''),
            NearbyCall BANGALORE_CENTER SEARCH_RADIUS ''eye hospital'' (Some ''t2'')],
           [''P1'', ''P2'', ''P3''])
   \<and> page_requests (calls (snd (text_pages paging_api 100 ''eye hospital'' None 0 fresh_run)))
     = [TextCall ''eye hospital Bangalore'' None,
        TextCall ''eye hospital Bangalore'' (Some ''t1'')]
   \<and> map fst (all_hospitals (snd (text_pages paging_api 100 ''eye hospital'' None 0 fresh_run)))
     = [''P1'', ''P2'']"
proof (intro conjI impI)
  show "length (page_requests (calls (snd (grid_pages g m r z loc k None 0 st))))
     \<le> length (page_requests (calls st)) + 3"
    using grid_pages_bound[of g m r z loc k None 0 st] by simp
  show "length (page_requests (calls (snd (text_pages g m k None 0 st))))
     \<le> length (page_requests (calls st)) + 2"
    using text_pages_bound[of g m k None 0 st] by simp
  show "simple_pages endless_api m tok s = None"
    by (rule simple_pages_endless)
next
  assume "places_nearby g (calls st) loc r k tok = Inr res \<and> falsy (next_page_token res)"
  then show "page_requests (calls (snd (grid_pages g m r z loc k tok n st)))
          = page_requests (calls st) @ [NearbyCall loc r k tok]"
    using grid_pages_last_page by blast
next
  assume "places_text g (calls st) (k @ '' Bangalore'') tok = Inr res \<and> falsy (next_page_token res)"
  then show "page_requests (calls (snd (text_pages g m k tok n st)))
          = page_requests (calls st) @ [TextCall (k @ '' Bangalore'') tok]"
    using text_pages_last_page by blast
next
  assume "places_nearby g (simple_calls s) BANGALORE_CENTER SEARCH_RADIUS ''eye hospital'' tok = Inr res
        \<and> falsy (next_page_token res)"
  then show "map_option (\<lambda>y. (fst y, page_requests (simple_calls (snd y)))) (simple_pages g m tok s)
          = Some (None, page_requests (simple_calls s) @
                    [NearbyCall BANGALORE_CENTER SEARCH_RADIUS ''eye hospital'' tok])"
    using simple_pages_last_page by blast
qed (use paging_grid paging_text paging_simple in simp_all)

theorem pagination_token_and_page_limit_witness:
  "length (page_requests (calls (snd (grid_pages paging_api 100 15000 1 (12.9716, 77.5946)
      ''eye hospital'' None 0 fresh_run)))) \<le> 3
   \<and> length (page_requests (calls (snd (text_pages paging_api 100 ''eye hospital'' None 0
      fresh_run)))) \<le> 2
   \<and> page_requests (calls (snd (grid_pages paging_api 100 15000 1 (12.9716, 77.5946)
        ''eye hospital'' (Some ''t2'') 2 fresh_run)))
     = [NearbyCall (12.9716, 77.5946) 15000 ''eye hospital'' (Some ''t2'')]
   \<and> page_requests (calls (snd (text_pages paging_api 100 ''eye hospital'' (Some ''t2'') 2
        fresh_run)))
     = [TextCall ''eye hospital Bangalore'' (Some ''t2'')]
   \<and> map_option (\<lambda>y. (fst y, page_requests (simple_calls (snd y))))
        (simple_pages paging_api 100 (Some ''t2'') fresh_simple)
     = Some (None, [NearbyCall BANGALORE_CENTER SEARCH_RADIUS ''eye hospital'' (Some ''t2'')])
   \<and> simple_pages endless_api 100 (Some ''t2'') fresh_simple = None"
proof -
  have a: "places_nearby paging_api (calls fresh_run) (12.9716, 77.5946) 15000 ''eye hospital''
             (Some ''t2'') = Inr (three_pages (Some ''t2''))"
    "places_text paging_api (calls fresh_run) (''eye hospital'' @ '' Bangalore'')
             (Some ''t2'') = Inr (three_pages (Some ''t2''))"
    "places_nearby paging_api (simple_calls fresh_simple) BANGALORE_CENTER SEARCH_RADIUS
             ''eye hospital'' (Some ''t2'') = Inr (three_pages (Some ''t2''))"
    "falsy (next_page_token (three_pages (Some ''t2'')))"
    by (simp_all add: paging_api_def three_pages_def falsy_def)
  have e: "page_requests (calls fresh_run) = []" "page_requests (simple_calls fresh_simple) = []"
    by (simp_all add: fresh_run_def fresh_simple_def page_requests_def)
  note t = pagination_token_and_page_limit [where g = paging_api and m = 100 and r = 15000
      and z = 1 and loc = "(12.9716, 77.5946)" and k = "''eye hospital''" and st = fresh_run
      and tok = "Some ''t2''" and res = "three_pages (Some ''t2'')" and n = 2
      and s = fresh_simple]
  show ?thesis
    using a e t by simp
qed

section \<open>C9: what a run without results returns\<close>

lemma fold_same_store:
  assumes "\<And>p s. all_hospitals (f p s) = all_hospitals s"
  shows "all_hospitals (fold f ps st) = all_hospitals st"
  by (induction ps arbitrary: st) (simp_all add: assms)

lemma failing_grid_keyword:
  "all_hospitals (grid_keyword failing_api m r z loc k st) = all_hospitals st"
  by (simp add: grid_keyword_def grid_pages.simps failing_api_def)

lemma failing_text_keyword:
  "all_hospitals (text_keyword failing_api m k st) = all_hospitals st"
  by (simp add: text_keyword_def text_pages.simps failing_api_def)

lemma failing_grid_loops:
  "all_hospitals (grid_loops failing_api m r ps ks st) = all_hospitals st"
  unfolding grid_loops_def grid_zone_def
  by (intro fold_same_store failing_grid_keyword)

lemma failing_text_loops:
  "all_hospitals (text_loops failing_api m ks st) = all_hospitals st"
  unfolding text_loops_def by (intro fold_same_store failing_text_keyword)

lemma failing_tables:
  "fst (fetch_hospitals_grid_search failing_api srt m r c0) = []"
  "fst (fetch_hospitals_text_search failing_api srt m c0) = []"
  by (simp_all add: fetch_hospitals_grid_search_def fetch_hospitals_text_search_def Let_def
      failing_grid_loops failing_text_loops)

lemma no_results_no_file:
  assumes "final_df (comprehensive_main g srt go to c0) = []"
  shows "csv_file (comprehensive_main g srt go to c0) = None"
  using assms by (simp add: csv_file_final_df)

lemma failing_fetch:
  "fetch_eye_hospitals_from_api failing_api srt m []
     = Some (None, [NearbyCall BANGALORE_CENTER SEARCH_RADIUS ''eye hospital'' None])"
  unfolding fetch_eye_hospitals_from_api_def
  by (subst simple_pages.simps) (simp add: failing_api_def)

lemma fetch_raises:
  assumes "places_nearby g c0 BANGALORE_CENTER SEARCH_RADIUS ''eye hospital'' None = Inl e"
  shows "fetch_eye_hospitals_from_api g srt m c0
     = Some (None, c0 @ [NearbyCall BANGALORE_CENTER SEARCH_RADIUS ''eye hospital'' None])"
  unfolding fetch_eye_hospitals_from_api_def
  using assms by (subst simple_pages.simps) simp

lemma get_eye_hospitals_fallback:
  assumes "fetch_eye_hospitals_from_api g srt m c0 = Some (None, c)"
  shows "get_eye_hospitals g srt m False c0 = Some (sample_data srt m, c)"
  using assms by (simp add: get_eye_hospitals_def)

lemma review_count_sample_row [simp]: "review_count (sample_row n a la lo r c p w i) = c"
  by (simp add: sample_row_def)

lemma place_id_sample_row [simp]: "place_id (sample_row n a la lo r c p w i) = i"
  by (simp add: sample_row_def)

lemma sample_all_above_100:
  "m \<le> 750 \<Longrightarrow> filter (\<lambda>h. m \<le> review_count h) SAMPLE_EYE_HOSPITALS = SAMPLE_EYE_HOSPITALS"
  by (simp add: SAMPLE_EYE_HOSPITALS_def)

lemma sample_in_order_mset: "mset SAMPLE_EYE_HOSPITALS = mset sample_in_order"
  by (simp add: sample_in_order_def SAMPLE_EYE_HOSPITALS_def)

lemma sample_in_order_ids:
  "map place_id sample_in_order =
     [''sample_2'', ''sample_1'', ''sample_3'', ''sample_5'', ''sample_8'', ''sample_6'',
      ''sample_10'', ''sample_9'', ''sample_4'', ''sample_7'']"
  by (simp add: sample_in_order_def SAMPLE_EYE_HOSPITALS_def)

lemma sample_in_order_counts:
  "map review_count sample_in_order = [2150, 1850, 1620, 1340, 1200, 1120, 1050, 980, 890, 750]"
  by (simp add: sample_in_order_def SAMPLE_EYE_HOSPITALS_def)

lemma sample_in_order_sorted: "sorted_desc sample_in_order"
proof -
  have "sorted_wrt (\<lambda>a b. b \<le> a) (map review_count sample_in_order)"
    by (simp only: sample_in_order_counts) simp
  then show ?thesis by (simp add: sorted_desc_def sorted_wrt_map)
qed

lemma sample_data_low_threshold:
  assumes "sorts_desc srt" "m \<le> 750"
  shows "sample_data srt m = sample_in_order"
  unfolding sample_data_def sample_all_above_100[OF assms(2)]
proof (rule sorts_desc_distinct_keys[OF assms(1) sample_in_order_sorted])
  show "distinct (map review_count sample_in_order)"
    by (simp only: sample_in_order_counts) simp
  show "mset SAMPLE_EYE_HOSPITALS = mset sample_in_order" by (rule sample_in_order_mset)
qed

lemma sample_data_set:
  "sorts_desc srt \<Longrightarrow>
     set (sample_data srt m) = {h \<in> set SAMPLE_EYE_HOSPITALS. m \<le> review_count h}"
  by (simp add: sample_data_def sorts_desc_set)

lemma sample_data_nonempty:
  assumes "sorts_desc srt"
  shows "sample_data srt m \<noteq> [] \<longleftrightarrow> m \<le> 2150"
proof -
  have "sample_data srt m \<noteq> [] \<longleftrightarrow> set (sample_data srt m) \<noteq> {}" by simp
  also have "\<dots> \<longleftrightarrow> (\<exists>h \<in> set SAMPLE_EYE_HOSPITALS. m \<le> review_count h)"
    by (auto simp add: sample_data_set[OF assms])
  also have "\<dots> \<longleftrightarrow> m \<le> 2150"
    by (simp add: SAMPLE_EYE_HOSPITALS_def) linarith
  finally show ?thesis .
qed

lemma endless_get: "get_eye_hospitals endless_api srt m False c0 = None"
  by (simp add: get_eye_hospitals_def fetch_eye_hospitals_from_api_def simple_pages_endless)

lemma simple_main_sample:
  assumes "sorts_desc srt"
  shows "simple_main g srt True c0 = Some (sample_data srt 100, Some (sample_data srt 100))"
  using sample_data_nonempty[OF assms, of 100]
  by (simp add: simple_main_def get_eye_hospitals_def save_hospitals_to_csv_def)

text \<open>
  C9, as stated, fails on the comprehensive script, which has no sample data: when
  every request fails, both strategies return an empty table, the final table is empty
  and no file is written.
\<close>

theorem comprehensive_script_has_no_fallback:
  "final_df (comprehensive_main failing_api stable_sort_values False False []) = []
   \<and> csv_file (comprehensive_main failing_api stable_sort_values False False []) = None"
  by (simp add: final_df_cases csv_file_final_df failing_tables combine_results_def)

text \<open>
  C9, amended. The simple pipeline returns the sample data, filtered by the threshold
  and in non-increasing order of review count, when the sample flag is set, when the
  fetch from the provider returns nothing, and so when the first search request fails.
  That table is non-empty exactly when the threshold is at most 2150, the largest review
  count of the sample; for a threshold of at most 750 it is all ten sample rows, and
  with the sample flag the script shows and writes them. The fallback is reached only
  when the fetch returns: on a provider whose every response carries a token the simple
  pipeline never returns. The comprehensive script has no fallback: when both
  strategies return an empty table, its final table is empty and no file is written.
\<close>

theorem fallback_to_sample_data:
  assumes "sorts_desc sort_values"
  shows "get_eye_hospitals g sort_values m True c0 = Some (sample_data sort_values m, c0)
    \<and> (fetch_eye_hospitals_from_api g sort_values m c0 = Some (None, c) \<longrightarrow>
          get_eye_hospitals g sort_values m False c0 = Some (sample_data sort_values m, c))
    \<and> (places_nearby g c0 BANGALORE_CENTER SEARCH_RADIUS ''eye hospital'' None = Inl e \<longrightarrow>
          get_eye_hospitals g sort_values m False c0
            = Some (sample_data sort_values m,
                    c0 @ [NearbyCall BANGALORE_CENTER SEARCH_RADIUS ''eye hospital'' None]))
    \<and> sorted_desc (sample_data sort_values m)
    \<and> set (sample_data sort_values m) = {h \<in> set SAMPLE_EYE_HOSPITALS. m \<le> review_count h}
    \<and> (sample_data sort_values m \<noteq> [] \<longleftrightarrow> m \<le> 2150)
    \<and> (m \<le> 750 \<longrightarrow>
          map place_id (sample_data sort_values m) =
            [''sample_2'', ''sample_1'', ''sample_3'', ''sample_5'', ''sample_8'', ''sample_6'',
             ''sample_10'', ''sample_9'', ''sample_4'', ''sample_7''])
    \<and> simple_main g sort_values True c0
        = Some (sample_data sort_values 100, Some (sample_data sort_values 100))
    \<and> get_eye_hospitals endless_api sort_values m False c0 = None
    \<and> (fst (fetch_hospitals_grid_search g2 sort_values 100 15000 c0) = []
          \<and> fst (fetch_hospitals_text_search g2 sort_values 100
                  (snd (fetch_hospitals_grid_search g2 sort_values 100 15000 c0))) = [] \<longrightarrow>
          final_df (comprehensive_main g2 sort_values False False c0) = []
          \<and> csv_file (comprehensive_main g2 sort_values False False c0) = None)"
proof (intro conjI impI)
  show "simple_main g sort_values True c0
        = Some (sample_data sort_values 100, Some (sample_data sort_values 100))"
    by (rule simple_main_sample[OF assms])
  show "get_eye_hospitals endless_api sort_values m False c0 = None"
    by (rule endless_get)
  show "get_eye_hospitals g sort_values m True c0 = Some (sample_data sort_values m, c0)"
    by (simp add: get_eye_hospitals_def)
  show "sorted_desc (sample_data sort_values m)"
    by (rule sample_data_sorted[OF assms])
  show "set (sample_data sort_values m) = {h \<in> set SAMPLE_EYE_HOSPITALS. m \<le> review_count h}"
    by (rule sample_data_set[OF assms])
  show "sample_data sort_values m \<noteq> [] \<longleftrightarrow> m \<le> 2150"
    by (rule sample_data_nonempty[OF assms])
next
  assume "fetch_eye_hospitals_from_api g sort_values m c0 = Some (None, c)"
  then show "get_eye_hospitals g sort_values m False c0 = Some (sample_data sort_values m, c)"
    by (rule get_eye_hospitals_fallback)
next
  assume "places_nearby g c0 BANGALORE_CENTER SEARCH_RADIUS ''eye hospital'' None = Inl e"
  then show "get_eye_hospitals g sort_values m False c0
            = Some (sample_data sort_values m,
                    c0 @ [NearbyCall BANGALORE_CENTER SEARCH_RADIUS ''eye hospital'' None])"
    by (intro get_eye_hospitals_fallback fetch_raises)
next
  assume "m \<le> 750"
  then show "map place_id (sample_data sort_values m) =
            [''sample_2'', ''sample_1'', ''sample_3'', ''sample_5'', ''sample_8'', ''sample_6'',
             ''sample_10'', ''sample_9'', ''sample_4'', ''sample_7'']"
    by (simp only: sample_data_low_threshold[OF assms] sample_in_order_ids)
next
  assume a: "fst (fetch_hospitals_grid_search g2 sort_values 100 15000 c0) = []
          \<and> fst (fetch_hospitals_text_search g2 sort_values 100
                  (snd (fetch_hospitals_grid_search g2 sort_values 100 15000 c0))) = []"
  then show e: "final_df (comprehensive_main g2 sort_values False False c0) = []"
    by (simp add: final_df_cases combine_results_def)
  then show "csv_file (comprehensive_main g2 sort_values False False c0) = None"
    by (rule no_results_no_file)
qed

theorem fallback_to_sample_data_witness:
  "sorts_desc stable_sort_values
   \<and> get_eye_hospitals failing_api stable_sort_values 100 True []
      = Some (sample_data stable_sort_values 100, [])
   \<and> get_eye_hospitals failing_api stable_sort_values 100 False []
      = Some (sample_data stable_sort_values 100,
              [NearbyCall BANGALORE_CENTER SEARCH_RADIUS ''eye hospital'' None])
   \<and> sorted_desc (sample_data stable_sort_values 100)
   \<and> sample_data stable_sort_values 100 \<noteq> []
   \<and> map place_id (sample_data stable_sort_values 100) =
        [''sample_2'', ''sample_1'', ''sample_3'', ''sample_5'', ''sample_8'', ''sample_6'',
         ''sample_10'', ''sample_9'', ''sample_4'', ''sample_7'']
   \<and> simple_main failing_api stable_sort_values True []
      = Some (sample_data stable_sort_values 100, Some (sample_data stable_sort_values 100))
   \<and> final_df (comprehensive_main failing_api stable_sort_values False False []) = []
   \<and> csv_file (comprehensive_main failing_api stable_sort_values False False []) = None"
proof -
  have r: "places_nearby failing_api [] BANGALORE_CENTER SEARCH_RADIUS ''eye hospital'' None
             = Inl (ApiError ''REQUEST_DENIED'')"
    by (simp add: failing_api_def)
  have m: "(100::int) \<le> 750" "(100::int) \<le> 2150" by simp_all
  note t = fallback_to_sample_data [OF sorts_desc_stable, where g = failing_api and m = 100
      and ?c0.0 = "[]" and c = "[NearbyCall BANGALORE_CENTER SEARCH_RADIUS ''eye hospital'' None]"
      and e = "ApiError ''REQUEST_DENIED''" and ?g2.0 = failing_api]
  show ?thesis
    using sorts_desc_stable r m failing_fetch[of stable_sort_values 100]
      failing_tables[of stable_sort_values 100] t
    by simp
qed

section \<open>C6: failures of the provider\<close>

lemma grid_pages_raise:
  assumes "places_nearby g (calls st) loc r k tok = Inl e"
  shows "grid_pages g m r z loc k tok n st
           = (Some e, st\<lparr>calls := calls st @ [NearbyCall loc r k tok]\<rparr>)"
  using assms by (subst grid_pages.simps) simp

lemma text_pages_raise:
  assumes "places_text g (calls st) (k @ '' Bangalore'') tok = Inl e"
  shows "text_pages g m k tok n st
           = (Some e, st\<lparr>calls := calls st @ [TextCall (k @ '' Bangalore'') tok]\<rparr>)"
  using assms by (subst text_pages.simps) simp

lemma simple_pages_raise:
  assumes "places_nearby g (simple_calls s) BANGALORE_CENTER SEARCH_RADIUS ''eye hospital'' tok
             = Inl e"
  shows "simple_pages g m tok s
           = Some (Some e, s\<lparr>simple_calls := simple_calls s @
                [NearbyCall BANGALORE_CENTER SEARCH_RADIUS ''eye hospital'' tok]\<rparr>)"
  using assms by (subst simple_pages.simps) simp

lemma grid_pages_empty:
  assumes "places_nearby g (calls st) loc r k tok = Inr res" "results res = []"
  shows "grid_pages g m r z loc k tok n st
           = (None, st\<lparr>calls := calls st @ [NearbyCall loc r k tok],
                        total_requests := total_requests st + 1\<rparr>)"
  using assms by (subst grid_pages.simps) simp

lemma text_pages_empty:
  assumes "places_text g (calls st) (k @ '' Bangalore'') tok = Inr res" "results res = []"
  shows "text_pages g m k tok n st
           = (None, st\<lparr>calls := calls st @ [TextCall (k @ '' Bangalore'') tok],
                        total_requests := total_requests st + 1\<rparr>)"
  using assms by (subst text_pages.simps) simp

lemma grid_zone_skips:
  assumes "places_nearby g (calls st) (snd zl) r k None = Inl e"
  shows "grid_zone g m r (k # ks) zl st
           = grid_zone g m r ks zl (st\<lparr>calls := calls st @ [NearbyCall (snd zl) r k None]\<rparr>)"
  using grid_pages_raise[OF assms] by (simp add: grid_zone_def grid_keyword_def)

lemma text_loops_skips:
  assumes "places_text g (calls st) (k @ '' Bangalore'') None = Inl e"
  shows "text_loops g m (k # ks) st
           = text_loops g m ks (st\<lparr>calls := calls st @ [TextCall (k @ '' Bangalore'') None]\<rparr>)"
  using text_pages_raise[OF assms] by (simp add: text_loops_def text_keyword_def)

lemma grid_process_place_raise:
  assumes "rp_place_id p = Some pid" "pid \<notin> fst ` set (all_hospitals st)"
    "place g (calls st) pid = Inl e"
  shows "grid_process_place g m z k p st = st\<lparr>calls := calls st @ [PlaceCall pid]\<rparr>"
  using assms by (simp add: grid_process_place_def grid_try_place_def)

lemma simple_process_place_raise:
  assumes "rp_place_id p = Some pid" "place g (simple_calls s) pid = Inl e"
  shows "simple_process_place g m p s = s\<lparr>simple_calls := simple_calls s @ [PlaceCall pid]\<rparr>"
  using assms by (simp add: simple_process_place_def simple_try_place_def)

lemma flaky_grid_loops:
  "map fst (all_hospitals
      (grid_loops flaky_api 100 15000 [(12.9716, 77.5946), (13.05, 77.5946)] KEYWORDS fresh_run))
     = [''A'']
   \<and> length (page_requests (calls
        (grid_loops flaky_api 100 15000 [(12.9716, 77.5946), (13.05, 77.5946)] KEYWORDS
           fresh_run))) = 16"
  by (simp add: grid_loops_def grid_zone_def grid_keyword_def grid_pages.simps KEYWORDS_def
      flaky_api_def flaky_search_def fresh_run_def item_def falsy_def grid_process_place_def
      grid_try_place_def details_with_def dict_get_def grid_hospital_info_def page_requests_def
      is_search_call_def)

lemma flaky_text_loops:
  "map fst (all_hospitals (text_loops flaky_api 100 KEYWORDS fresh_run)) = [''A'']
   \<and> length (page_requests (calls (text_loops flaky_api 100 KEYWORDS fresh_run))) = 8"
  by (simp add: text_loops_def text_keyword_def text_pages.simps KEYWORDS_def flaky_api_def
      flaky_search_def fresh_run_def item_def falsy_def text_process_place_def text_try_place_def
      details_with_def dict_get_def text_hospital_info_def page_requests_def is_search_call_def
      BANGALORE_CENTER_def haversine_self)

text \<open>
  C6. A search request that raises ends the query in which it is made, at whatever
  page, and only that query: in the grid strategy the remaining keywords of the zone
  are processed from the state as it stood, and likewise the remaining keywords of the
  text strategy; whatever was stored before stays stored, for every behaviour of the
  provider. A details request that raises drops that one item. A search response with
  no results ends the query without an exception and without an item. In the simple
  pipeline, whose run is a single query, a search request that raises ends the query
  with nothing returned and no exception, and the caller goes on with the sample data.
  With a provider that times out on the first keyword and returns an empty page for the
  third, every keyword of every zone is still searched (16 page requests over two zones,
  8 over the keywords of the text strategy) and the place behind the other keywords is
  found.
\<close>

theorem failure_skips_only_the_query:
  "(places_nearby g (calls st) loc r k tok = Inl e \<longrightarrow>
      grid_pages g m r z loc k tok n st
        = (Some e, st\<lparr>calls := calls st @ [NearbyCall loc r k tok]\<rparr>))
   \<and> (places_nearby g (calls st) (snd zl) r k None = Inl e \<longrightarrow>
      grid_zone g m r (k # ks) zl st
        = grid_zone g m r ks zl (st\<lparr>calls := calls st @ [NearbyCall (snd zl) r k None]\<rparr>))
   \<and> (places_text g (calls st) (k @ '' Bangalore'') tok = Inl e \<longrightarrow>
      text_pages g m k tok n st
        = (Some e, st\<lparr>calls := calls st @ [TextCall (k @ '' Bangalore'') tok]\<rparr>))
   \<and> (places_text g (calls st) (k @ '' Bangalore'') None = Inl e \<longrightarrow>
      text_loops g m (k # ks) st
        = text_loops g m ks (st\<lparr>calls := calls st @ [TextCall (k @ '' Bangalore'') None]\<rparr>))
   \<and> extends m (all_hospitals st) (all_hospitals (snd (grid_pages g m r z loc k tok n st)))
   \<and> extends m (all_hospitals st) (all_hospitals (grid_loops g m r ps ks st))
   \<and> extends m (all_hospitals st) (all_hospitals (snd (text_pages g m k tok n st)))
   \<and> extends m (all_hospitals st) (all_hospitals (text_loops g m ks st))
   \<and> (rp_place_id p = Some pid \<and> pid \<notin> fst ` set (all_hospitals st)
        \<and> place g (calls st) pid = Inl e2 \<longrightarrow>
      grid_process_place g m z k p st = st\<lparr>calls := calls st @ [PlaceCall pid]\<rparr>)
   \<and> (rp_place_id p = Some pid \<and> place g (simple_calls s) pid = Inl e2 \<longrightarrow>
      simple_process_place g m p s = s\<lparr>simple_calls := simple_calls s @ [PlaceCall pid]\<rparr>)
   \<and> (places_nearby g (calls st) loc r k2 tok = Inr res \<and> results res = [] \<longrightarrow>
      grid_pages g m r z loc k2 tok n st
        = (None, st\<lparr>calls := calls st @ [NearbyCall loc r k2 tok],
                     total_requests := total_requests st + 1\<rparr>))
   \<and> (places_text g (calls st) (k2 @ '' Bangalore'') tok = Inr res \<and> results res = [] \<longrightarrow>
      text_pages g m k2 tok n st
        = (None, st\<lparr>calls := calls st @ [TextCall (k2 @ '' Bangalore'') tok],
                     total_requests := total_requests st + 1\<rparr>))
   \<and> (places_nearby g (simple_calls s) BANGALORE_CENTER SEARCH_RADIUS ''eye hospital'' tok = Inl e
        \<longrightarrow>
      simple_pages g m tok s
        = Some (Some e, s\<lparr>simple_calls := simple_calls s @
              [NearbyCall BANGALORE_CENTER SEARCH_RADIUS ''eye hospital'' tok]\<rparr>))
   \<and> (places_nearby g c0 BANGALORE_CENTER SEARCH_RADIUS ''eye hospital'' None = Inl e \<longrightarrow>
      fetch_eye_hospitals_from_api g sort_values m c0
        = Some (None, c0 @ [NearbyCall BANGALORE_CENTER SEARCH_RADIUS ''eye hospital'' None])
      \<and> get_eye_hospitals g sort_values m False c0
        = Some (sample_data sort_values m,
                c0 @ [NearbyCall BANGALORE_CENTER SEARCH_RADIUS ''eye hospital'' None]))
   \<and> map fst (all_hospitals
        (grid_loops flaky_api 100 15000 [(12.9716, 77.5946), (13.05, 77.5946)] KEYWORDS
           fresh_run)) = [''A'']
   \<and> length (page_requests (calls
        (grid_loops flaky_api 100 15000 [(12.9716, 77.5946), (13.05, 77.5946)] KEYWORDS
           fresh_run))) = 16
   \<and> map fst (all_hospitals (text_loops flaky_api 100 KEYWORDS fresh_run)) = [''A'']
   \<and> length (page_requests (calls (text_loops flaky_api 100 KEYWORDS fresh_run))) = 8"
proof (intro conjI impI)
  show "extends m (all_hospitals st) (all_hospitals (snd (grid_pages g m r z loc k tok n st)))"
    by (rule grid_pages_extends)
  show "extends m (all_hospitals st) (all_hospitals (grid_loops g m r ps ks st))"
    by (rule grid_loops_extends)
  show "extends m (all_hospitals st) (all_hospitals (snd (text_pages g m k tok n st)))"
    by (rule text_pages_extends)
  show "extends m (all_hospitals st) (all_hospitals (text_loops g m ks st))"
    by (rule text_loops_extends)
next
  assume "places_nearby g (calls st) loc r k tok = Inl e"
  then show "grid_pages g m r z loc k tok n st
        = (Some e, st\<lparr>calls := calls st @ [NearbyCall loc r k tok]\<rparr>)"
    by (rule grid_pages_raise)
next
  assume "places_nearby g (calls st) (snd zl) r k None = Inl e"
  then show "grid_zone g m r (k # ks) zl st
        = grid_zone g m r ks zl (st\<lparr>calls := calls st @ [NearbyCall (snd zl) r k None]\<rparr>)"
    by (rule grid_zone_skips)
next
  assume "places_text g (calls st) (k @ '' Bangalore'') tok = Inl e"
  then show "text_pages g m k tok n st
        = (Some e, st\<lparr>calls := calls st @ [TextCall (k @ '' Bangalore'') tok]\<rparr>)"
    by (rule text_pages_raise)
next
  assume "places_text g (calls st) (k @ '' Bangalore'') None = Inl e"
  then show "text_loops g m (k # ks) st
        = text_loops g m ks (st\<lparr>calls := calls st @ [TextCall (k @ '' Bangalore'') None]\<rparr>)"
    by (rule text_loops_skips)
next
  assume "rp_place_id p = Some pid \<and> pid \<notin> fst ` set (all_hospitals st)
        \<and> place g (calls st) pid = Inl e2"
  then show "grid_process_place g m z k p st = st\<lparr>calls := calls st @ [PlaceCall pid]\<rparr>"
    using grid_process_place_raise by blast
next
  assume "rp_place_id p = Some pid \<and> place g (simple_calls s) pid = Inl e2"
  then show "simple_process_place g m p s = s\<lparr>simple_calls := simple_calls s @ [PlaceCall pid]\<rparr>"
    using simple_process_place_raise by blast
next
  assume "places_nearby g (calls st) loc r k2 tok = Inr res \<and> results res = []"
  then show "grid_pages g m r z loc k2 tok n st
        = (None, st\<lparr>calls := calls st @ [NearbyCall loc r k2 tok],
                     total_requests := total_requests st + 1\<rparr>)"
    using grid_pages_empty by blast
next
  assume "places_text g (calls st) (k2 @ '' Bangalore'') tok = Inr res \<and> results res = []"
  then show "text_pages g m k2 tok n st
        = (None, st\<lparr>calls := calls st @ [TextCall (k2 @ '' Bangalore'') tok],
                     total_requests := total_requests st + 1\<rparr>)"
    using text_pages_empty by blast
next
  assume "places_nearby g (simple_calls s) BANGALORE_CENTER SEARCH_RADIUS ''eye hospital'' tok = Inl e"
  then show "simple_pages g m tok s
        = Some (Some e, s\<lparr>simple_calls := simple_calls s @
              [NearbyCall BANGALORE_CENTER SEARCH_RADIUS ''eye hospital'' tok]\<rparr>)"
    by (rule simple_pages_raise)
next
  assume a: "places_nearby g c0 BANGALORE_CENTER SEARCH_RADIUS ''eye hospital'' None = Inl e"
  show "fetch_eye_hospitals_from_api g sort_values m c0
        = Some (None, c0 @ [NearbyCall BANGALORE_CENTER SEARCH_RADIUS ''eye hospital'' None])"
    by (rule fetch_raises[OF a])
  then show "get_eye_hospitals g sort_values m False c0
        = Some (sample_data sort_values m,
                c0 @ [NearbyCall BANGALORE_CENTER SEARCH_RADIUS ''eye hospital'' None])"
    by (rule get_eye_hospitals_fallback)
qed (use flaky_grid_loops flaky_text_loops in simp_all)

theorem failure_skips_only_the_query_witness:
  "grid_pages flaky_api 100 15000 1 (12.9716, 77.5946) ''eye hospital'' None 0 fresh_run
     = (Some Timeout,
        fresh_run\<lparr>calls := calls fresh_run @
          [NearbyCall (12.9716, 77.5946) 15000 ''eye hospital'' None]\<rparr>)
   \<and> grid_zone flaky_api 100 15000 [''eye hospital'', ''eye clinic''] (1, (12.9716, 77.5946))
        fresh_run
     = grid_zone flaky_api 100 15000 [''eye clinic''] (1, (12.9716, 77.5946))
        (fresh_run\<lparr>calls := calls fresh_run @
          [NearbyCall (snd (1::nat, (12.9716::real, 77.5946::real))) 15000 ''eye hospital'' None]\<rparr>)
   \<and> text_pages flaky_api 100 ''eye hospital'' None 0 fresh_run
     = (Some Timeout,
        fresh_run\<lparr>calls := calls fresh_run @
          [TextCall (''eye hospital'' @ '' Bangalore'') None]\<rparr>)
   \<and> text_loops flaky_api 100 [''eye hospital'', ''eye clinic''] fresh_run
     = text_loops flaky_api 100 [''eye clinic'']
        (fresh_run\<lparr>calls := calls fresh_run @
          [TextCall (''eye hospital'' @ '' Bangalore'') None]\<rparr>)
   \<and> extends 100 (all_hospitals fresh_run)
        (all_hospitals (grid_loops flaky_api 100 15000 GRID_POINTS [''eye clinic''] fresh_run))
   \<and> extends 100 (all_hospitals fresh_run)
        (all_hospitals (text_loops flaky_api 100 [''eye clinic''] fresh_run))
   \<and> grid_process_place flaky_api 100 1 ''eye hospital'' (item ''Z'') fresh_run
     = fresh_run\<lparr>calls := calls fresh_run @ [PlaceCall ''Z'']\<rparr>
   \<and> simple_process_place flaky_api 100 (item ''Z'') fresh_simple
     = fresh_simple\<lparr>simple_calls := simple_calls fresh_simple @ [PlaceCall ''Z'']\<rparr>
   \<and> grid_pages flaky_api 100 15000 1 (12.9716, 77.5946) ''eye clinic'' None 0 fresh_run
     = (None, fresh_run\<lparr>calls := calls fresh_run @
          [NearbyCall (12.9716, 77.5946) 15000 ''eye clinic'' None],
          total_requests := total_requests fresh_run + 1\<rparr>)
   \<and> text_pages flaky_api 100 ''eye clinic'' None 0 fresh_run
     = (None, fresh_run\<lparr>calls := calls fresh_run @
          [TextCall (''eye clinic'' @ '' Bangalore'') None],
          total_requests := total_requests fresh_run + 1\<rparr>)
   \<and> simple_pages flaky_api 100 None fresh_simple
     = Some (Some Timeout, fresh_simple\<lparr>simple_calls := simple_calls fresh_simple @
          [NearbyCall BANGALORE_CENTER SEARCH_RADIUS ''eye hospital'' None]\<rparr>)
   \<and> get_eye_hospitals flaky_api stable_sort_values 100 False []
     = Some (sample_data stable_sort_values 100,
             [] @ [NearbyCall BANGALORE_CENTER SEARCH_RADIUS ''eye hospital'' None])"
proof -
  have a: "places_nearby flaky_api (calls fresh_run) (12.9716, 77.5946) 15000 ''eye hospital'' None
             = Inl Timeout"
    "places_nearby flaky_api (calls fresh_run) (snd (1::nat, (12.9716::real, 77.5946::real)))
        15000 ''eye hospital'' None = Inl Timeout"
    "places_text flaky_api (calls fresh_run) (''eye hospital'' @ '' Bangalore'') None
             = Inl Timeout"
    "places_nearby flaky_api (simple_calls fresh_simple) BANGALORE_CENTER SEARCH_RADIUS
        ''eye hospital'' None = Inl Timeout"
    "places_nearby flaky_api [] BANGALORE_CENTER SEARCH_RADIUS ''eye hospital'' None
             = Inl Timeout"
    by (simp_all add: flaky_api_def flaky_search_def)
  have b: "places_nearby flaky_api (calls fresh_run) (12.9716, 77.5946) 15000 ''eye clinic'' None
             = Inr \<lparr>results = [], next_page_token = None\<rparr>
           \<and> results \<lparr>results = [], next_page_token = None\<rparr> = []"
    "places_text flaky_api (calls fresh_run) (''eye clinic'' @ '' Bangalore'') None
             = Inr \<lparr>results = [], next_page_token = None\<rparr>
           \<and> results \<lparr>results = [], next_page_token = None\<rparr> = []"
    by (simp_all add: flaky_api_def flaky_search_def)
  have c: "rp_place_id (item ''Z'') = Some ''Z'' \<and> ''Z'' \<notin> fst ` set (all_hospitals fresh_run)
             \<and> place flaky_api (calls fresh_run) ''Z'' = Inl Timeout"
    "rp_place_id (item ''Z'') = Some ''Z''
             \<and> place flaky_api (simple_calls fresh_simple) ''Z'' = Inl Timeout"
    by (simp_all add: flaky_api_def item_def fresh_run_def)
  note t = failure_skips_only_the_query [where g = flaky_api and st = fresh_run
      and loc = "(12.9716, 77.5946)" and r = 15000 and k = "''eye hospital''" and tok = None
      and e = Timeout and m = 100 and z = 1 and n = 0 and zl = "(1, (12.9716, 77.5946))"
      and ks = "[''eye clinic'']" and ps = GRID_POINTS and p = "item ''Z''" and pid = "''Z''"
      and ?e2.0 = Timeout and s = fresh_simple and ?k2.0 = "''eye clinic''"
      and res = "\<lparr>results = [], next_page_token = None\<rparr>" and ?c0.0 = "[]"
      and sort_values = stable_sort_values]
  show ?thesis
    apply (intro conjI)
    using t a(1) apply blast
    using t a(2) apply blast
    using t a(3) apply blast
    using t a(3) apply blast
    using t apply blast
    using t apply blast
    using t c(1) apply blast
    using t c(2) apply blast
    using t b(1) apply blast
    using t b(2) apply blast
    using t a(4) apply blast
    using t a(5) apply blast
    done
qed


end
